theory Spec2Isabelle
  imports Complex_Main "HOL-Library.Log_Nat"
begin

section \<open>Numbers and errors\<close>

text \<open>
  The two strategy scripts (\<^verbatim>\<open>scripts/quickstart_script_2_statusmode.py\<close>, class
  \<^verbatim>\<open>QuickstartScript2\<close>, and \<^verbatim>\<open>scripts/RSI-AMM.py\<close>, class \<^verbatim>\<open>RSIAMM\<close>) compute with
  Python floats and \<^verbatim>\<open>Decimal\<close>s. A value of either kind is a real number, an infinity
  or \<^verbatim>\<open>NaN\<close>. Every float operation rounds its exact result to binary64, every
  \<^verbatim>\<open>Decimal\<close> operation rounds it to the 28 significant digits of the default context;
  \<^verbatim>\<open>Decimal(x)\<close> of a float is exact. The sign of zero is not modelled.
\<close>

datatype pynum = NaN | PosInf | NegInf | Num real

datatype py_error =
    AttributeError | IndexError | KeyError | InvalidOperation | Overflow | VenueError

text \<open>Rounding to the nearest integer, ties to the even one: the rounding mode of
  binary64 arithmetic, of the default \<^verbatim>\<open>Decimal\<close> context and of \<^verbatim>\<open>round\<close> on a
  \<^verbatim>\<open>Decimal\<close>.\<close>

definition round_half_even :: "real \<Rightarrow> int" where
  "round_half_even x =
     (let f = \<lfloor>x\<rfloor>; d = x - of_int f
      in if d < 1 / 2 then f else if d > 1 / 2 then f + 1 else if even f then f else f + 1)"

text \<open>The exponent of a positive number in base \<open>b\<close>: the integer \<open>e\<close> with
  \<open>b ^ e \<le> x < b ^ (e + 1)\<close>.\<close>

definition expo :: "nat \<Rightarrow> real \<Rightarrow> int" where
  "expo b x =
     (if 1 \<le> x then int (floorlog b (nat \<lfloor>x\<rfloor>)) - 1
      else - int (floorlog b (nat (\<lceil>1 / x\<rceil> - 1))))"

text \<open>Rounding to \<open>p\<close> significant digits in base \<open>b\<close>: to a multiple of the quantum
  \<open>b ^ (e - p + 1)\<close>, where \<open>e\<close> is the exponent of the number; the quantum is never below
  \<open>b ^ etiny\<close>, the grid of the subnormal numbers.\<close>

definition round_sig :: "nat \<Rightarrow> nat \<Rightarrow> int \<Rightarrow> real \<Rightarrow> real" where
  "round_sig b p etiny x =
     (if x = 0 then 0
      else (let q = of_nat b powi (max (expo b \<bar>x\<bar> - int p + 1) etiny)
            in sgn x * (q * of_int (round_half_even (\<bar>x\<bar> / q)))))"

text \<open>binary64: 53 bits, subnormal grid \<open>2 ^ - 1074\<close>; a result that rounds to \<open>2 ^ 1024\<close>
  or beyond is an infinity.\<close>

definition float_round :: "real \<Rightarrow> pynum" where
  "float_round x =
     (let r = round_sig 2 53 (- 1074) x
      in if 2 ^ 1024 \<le> \<bar>r\<bar> then (if 0 < r then PosInf else NegInf) else Num r)"

text \<open>The default \<^verbatim>\<open>Decimal\<close> context: 28 digits, exponents from \<open>- 999999\<close> to \<open>999999\<close>
  (so the subnormal grid is \<open>10 ^ - 1000026\<close>), and the \<^verbatim>\<open>Overflow\<close> trap set: a result
  beyond the largest exponent raises.\<close>

definition decimal_round :: "real \<Rightarrow> py_error + pynum" where
  "decimal_round x =
     (let r = round_sig 10 28 (- 1000026) x
      in if r \<noteq> 0 \<and> 999999 < expo 10 \<bar>r\<bar> then Inl Overflow else Inr (Num r))"

fun pn_neg :: "pynum \<Rightarrow> pynum" where
  "pn_neg (Num a) = Num (- a)"
| "pn_neg PosInf = NegInf"
| "pn_neg NegInf = PosInf"
| "pn_neg NaN = NaN"

text \<open>Float arithmetic: nothing raises; \<^verbatim>\<open>NaN\<close> propagates; the difference of equal
  infinities and the product of an infinity with zero are \<^verbatim>\<open>NaN\<close>.\<close>

fun fl_add :: "pynum \<Rightarrow> pynum \<Rightarrow> pynum" where
  "fl_add (Num a) (Num b) = float_round (a + b)"
| "fl_add NaN _ = NaN"
| "fl_add _ NaN = NaN"
| "fl_add PosInf NegInf = NaN"
| "fl_add NegInf PosInf = NaN"
| "fl_add PosInf _ = PosInf"
| "fl_add NegInf _ = NegInf"
| "fl_add _ PosInf = PosInf"
| "fl_add _ NegInf = NegInf"

definition fl_sub :: "pynum \<Rightarrow> pynum \<Rightarrow> pynum" where
  "fl_sub a b = fl_add a (pn_neg b)"

text \<open>The sign of a product with an infinite factor.\<close>

definition signed_inf :: "bool \<Rightarrow> pynum" where
  "signed_inf positive = (if positive then PosInf else NegInf)"

fun fl_mul :: "pynum \<Rightarrow> pynum \<Rightarrow> pynum" where
  "fl_mul (Num a) (Num b) = float_round (a * b)"
| "fl_mul NaN _ = NaN"
| "fl_mul _ NaN = NaN"
| "fl_mul PosInf (Num b) = (if b = 0 then NaN else signed_inf (0 < b))"
| "fl_mul NegInf (Num b) = (if b = 0 then NaN else signed_inf (b < 0))"
| "fl_mul (Num a) PosInf = (if a = 0 then NaN else signed_inf (0 < a))"
| "fl_mul (Num a) NegInf = (if a = 0 then NaN else signed_inf (a < 0))"
| "fl_mul PosInf PosInf = PosInf"
| "fl_mul NegInf NegInf = PosInf"
| "fl_mul PosInf NegInf = NegInf"
| "fl_mul NegInf PosInf = NegInf"

text \<open>\<^verbatim>\<open>Decimal\<close> multiplication: a quiet \<^verbatim>\<open>NaN\<close> propagates without raising; zero times
  an infinity raises \<^verbatim>\<open>InvalidOperation\<close>; a finite product is rounded.\<close>

fun dec_mul :: "pynum \<Rightarrow> pynum \<Rightarrow> py_error + pynum" where
  "dec_mul (Num a) (Num b) = decimal_round (a * b)"
| "dec_mul NaN _ = Inr NaN"
| "dec_mul _ NaN = Inr NaN"
| "dec_mul PosInf (Num b) = (if b = 0 then Inl InvalidOperation else Inr (signed_inf (0 < b)))"
| "dec_mul NegInf (Num b) = (if b = 0 then Inl InvalidOperation else Inr (signed_inf (b < 0)))"
| "dec_mul (Num a) PosInf = (if a = 0 then Inl InvalidOperation else Inr (signed_inf (0 < a)))"
| "dec_mul (Num a) NegInf = (if a = 0 then Inl InvalidOperation else Inr (signed_inf (a < 0)))"
| "dec_mul PosInf PosInf = Inr PosInf"
| "dec_mul NegInf NegInf = Inr PosInf"
| "dec_mul PosInf NegInf = Inr NegInf"
| "dec_mul NegInf PosInf = Inr NegInf"

text \<open>The order of the values that are not \<^verbatim>\<open>NaN\<close>.\<close>

fun pn_less :: "pynum \<Rightarrow> pynum \<Rightarrow> bool" where
  "pn_less (Num a) (Num b) = (a < b)"
| "pn_less NaN _ = False"
| "pn_less _ NaN = False"
| "pn_less _ NegInf = False"
| "pn_less PosInf _ = False"
| "pn_less NegInf _ = True"
| "pn_less _ PosInf = True"

definition is_nan :: "pynum \<Rightarrow> bool" where
  "is_nan x = (case x of NaN \<Rightarrow> True | _ \<Rightarrow> False)"

text \<open>Ordering comparisons. Between floats a \<^verbatim>\<open>NaN\<close> operand gives \<^verbatim>\<open>False\<close>; with a
  \<^verbatim>\<open>Decimal\<close> on the left a \<^verbatim>\<open>NaN\<close> on either side raises \<^verbatim>\<open>InvalidOperation\<close>.\<close>

definition float_gt :: "pynum \<Rightarrow> pynum \<Rightarrow> bool" where
  "float_gt a b = pn_less b a"

definition float_lt :: "pynum \<Rightarrow> pynum \<Rightarrow> bool" where
  "float_lt a b = pn_less a b"

definition decimal_gt :: "pynum \<Rightarrow> pynum \<Rightarrow> py_error + bool" where
  "decimal_gt a b = (if is_nan a \<or> is_nan b then Inl InvalidOperation else Inr (pn_less b a))"

definition decimal_lt :: "pynum \<Rightarrow> pynum \<Rightarrow> py_error + bool" where
  "decimal_lt a b = (if is_nan a \<or> is_nan b then Inl InvalidOperation else Inr (pn_less a b))"

section \<open>The order data model\<close>

text \<open>\<^verbatim>\<open>TradeType\<close>, \<^verbatim>\<open>OrderType\<close> and \<^verbatim>\<open>OrderCandidate\<close> are imported by the scripts from
  the host framework. The candidate's fields are the keyword arguments both scripts
  construct it with; the sides are the two the specification's data model names.\<close>

datatype trade_type = BUY | SELL

datatype order_type = MARKET | LIMIT

record order_candidate =
  trading_pair :: string
  is_maker :: bool
  order_type :: order_type
  order_side :: trade_type
  amount :: pynum
  price :: pynum

text \<open>A resting order as \<^verbatim>\<open>get_active_orders\<close> lists it: the two attributes
  \<^verbatim>\<open>cancel_all_orders\<close> reads.\<close>

datatype limit_order = LimitOrder (order_trading_pair: string) (client_order_id: string)

text \<open>The requests a strategy sends to the venue, in the order it sends them:
  \<^verbatim>\<open>self.cancel(exchange, trading_pair, client_order_id)\<close> and
  \<^verbatim>\<open>self.sell\<close> / \<^verbatim>\<open>self.buy(connector_name, trading_pair, amount, order_type, price)\<close>.\<close>

datatype venue_call =
    Cancel string string string
  | Sell string string pynum order_type pynum
  | Buy string string pynum order_type pynum

section \<open>The venue and the strategy state\<close>

text \<open>
  The venue connector is an external collaborator. What it answers during one tick is a
  parameter of the model: the clock, the resting orders, and for every request whether
  the call raises.
\<close>

record venue =
  current_timestamp :: real
  active_orders :: "limit_order list"
  cancel_raises :: "limit_order \<Rightarrow> bool"
  submit_raises :: "venue_call \<Rightarrow> bool"

text \<open>Both classes keep \<^verbatim>\<open>create_timestamp\<close> (class attribute, initially 0);
  \<^verbatim>\<open>QuickstartScript2.__init__\<close> adds the band, both bounds \<^verbatim>\<open>Decimal("0")\<close>;
  \<^verbatim>\<open>RSIAMM\<close> adds \<^verbatim>\<open>last_mid_price = None\<close>, which no method assigns.\<close>

record strategy_state =
  create_timestamp :: real

record qs2_state = strategy_state +
  price_ceiling :: pynum
  price_floor :: pynum

record rsiamm_state = strategy_state +
  last_mid_price :: "pynum option"

definition qs2_init :: qs2_state where
  "qs2_init = \<lparr>create_timestamp = 0, price_ceiling = Num 0, price_floor = Num 0\<rparr>"


section \<open>QuickstartScript2\<close>

text \<open>Class attributes of \<^verbatim>\<open>QuickstartScript2\<close>. The two spreads are float literals: the
  binary64 numbers nearest to 0.02.\<close>

definition qs2_bid_spread :: pynum where "qs2_bid_spread = float_round 0.02"
definition qs2_ask_spread :: pynum where "qs2_ask_spread = float_round 0.02"
definition qs2_order_refresh_time :: int where "qs2_order_refresh_time = 15"
definition qs2_order_amount :: real where "qs2_order_amount = 40"
definition qs2_trading_pair :: string where "qs2_trading_pair = ''POPCAT-USDT''"
definition qs2_exchange :: string where "qs2_exchange = ''gate_io_paper_trade''"

text \<open>
  What the collaborators of \<^verbatim>\<open>QuickstartScript2\<close> answer during one tick:
  \<^item> \<open>is_ready\<close>: the readiness test of the candle feed in \<^verbatim>\<open>on_tick\<close>;
  \<^item> \<open>price_by_type\<close>: \<^verbatim>\<open>get_price_by_type(trading_pair, price_source)\<close>, a price or
    an exception;
  \<^item> \<open>candles_last_row\<close>: the last row of the candle frame after the band columns were
    appended, as a map from column names (\<open>None\<close>: the frame has no row);
  \<^item> \<open>adjust_candidates\<close>: the connector's budget checker.
\<close>

record qs2_world = venue +
  is_ready :: bool
  price_by_type :: "py_error + pynum"
  candles_last_row :: "(string \<rightharpoonup> pynum) option"
  adjust_candidates :: "order_candidate list \<Rightarrow> bool \<Rightarrow> py_error + order_candidate list"

text \<open>
  \<^verbatim>\<open>create_proposal\<close>: both prices from the reference price and the fixed spreads. The
  factors \<^verbatim>\<open>1 - bid_spread\<close> and \<^verbatim>\<open>1 + ask_spread\<close> are float results, the products are
  \<^verbatim>\<open>Decimal\<close> products; any exception gives the empty proposal.
\<close>

definition qs2_create_proposal :: "'a qs2_world_scheme \<Rightarrow> order_candidate list" where
  "qs2_create_proposal w =
     (case price_by_type w of
        Inl e \<Rightarrow> []
      | Inr ref_price \<Rightarrow>
          (case dec_mul ref_price (fl_sub (Num 1) qs2_bid_spread) of
             Inl e \<Rightarrow> []
           | Inr buy_price \<Rightarrow>
               (case dec_mul ref_price (fl_add (Num 1) qs2_ask_spread) of
                  Inl e \<Rightarrow> []
                | Inr sell_price \<Rightarrow>
                    (let buy_order = \<lparr>trading_pair = qs2_trading_pair, is_maker = True,
                           order_type = LIMIT, order_side = BUY, amount = Num qs2_order_amount,
                           price = buy_price\<rparr>;
                         sell_order = \<lparr>trading_pair = qs2_trading_pair, is_maker = True,
                           order_type = LIMIT, order_side = SELL, amount = Num qs2_order_amount,
                           price = sell_price\<rparr>
                     in [buy_order, sell_order]))))"

text \<open>\<^verbatim>\<open>adjust_proposal_to_budget\<close>: the budget checker's answer with
  \<^verbatim>\<open>all_or_none=True\<close>, the empty list when it raises.\<close>

definition adjust_proposal_to_budget ::
  "'a qs2_world_scheme \<Rightarrow> order_candidate list \<Rightarrow> order_candidate list" where
  "adjust_proposal_to_budget w proposal =
     (case adjust_candidates w proposal True of
        Inl e \<Rightarrow> []
      | Inr proposal_adjusted \<Rightarrow> proposal_adjusted)"

text \<open>
  \<^verbatim>\<open>place_order\<close>, in both classes the same \<^verbatim>\<open>if\<close>/\<^verbatim>\<open>elif\<close>: the request sent, and the
  exception if the venue call raises. \<^verbatim>\<open>QuickstartScript2.place_order\<close> wraps it in
  \<^verbatim>\<open>try\<close>/\<^verbatim>\<open>except\<close>, so only the request remains.
\<close>

definition rsiamm_place_order ::
  "'a venue_scheme \<Rightarrow> string \<Rightarrow> order_candidate \<Rightarrow> venue_call list \<times> py_error option" where
  "rsiamm_place_order v connector_name order =
     (if order_side order = SELL then
        (let call = Sell connector_name (trading_pair order) (amount order)
                      (order_type order) (price order)
         in ([call], if submit_raises v call then Some VenueError else None))
      else if order_side order = BUY then
        (let call = Buy connector_name (trading_pair order) (amount order)
                      (order_type order) (price order)
         in ([call], if submit_raises v call then Some VenueError else None))
      else ([], None))"

definition qs2_place_order ::
  "'a venue_scheme \<Rightarrow> string \<Rightarrow> order_candidate \<Rightarrow> venue_call list" where
  "qs2_place_order v connector_name order =
     (case rsiamm_place_order v connector_name order of
        (calls, Some e) \<Rightarrow> calls
      | (calls, None) \<Rightarrow> calls)"

text \<open>\<^verbatim>\<open>place_orders\<close>. In \<^verbatim>\<open>QuickstartScript2\<close> no call of \<^verbatim>\<open>place_order\<close> raises, so
  the loop visits every order.\<close>

fun qs2_place_orders :: "'a venue_scheme \<Rightarrow> order_candidate list \<Rightarrow> venue_call list" where
  "qs2_place_orders v [] = []"
| "qs2_place_orders v (order # rest) =
     qs2_place_order v qs2_exchange order @ qs2_place_orders v rest"

text \<open>
  The loop of \<^verbatim>\<open>cancel_all_orders\<close>, the same in both classes: one \<^verbatim>\<open>self.cancel\<close> per
  resting order; a call that raises ends the loop. \<^verbatim>\<open>QuickstartScript2\<close> has the
  \<^verbatim>\<open>try\<close> around the whole loop, and its \<^verbatim>\<open>except\<close> clause only logs.
\<close>

fun cancel_loop ::
  "'a venue_scheme \<Rightarrow> string \<Rightarrow> limit_order list \<Rightarrow> venue_call list \<times> py_error option" where
  "cancel_loop v exchange_name [] = ([], None)"
| "cancel_loop v exchange_name (order # rest) =
     (let call = Cancel exchange_name (order_trading_pair order) (client_order_id order)
      in if cancel_raises v order then ([call], Some VenueError)
         else (case cancel_loop v exchange_name rest of
                 (calls, outcome) \<Rightarrow> (call # calls, outcome)))"

definition qs2_cancel_all_orders :: "'a venue_scheme \<Rightarrow> venue_call list" where
  "qs2_cancel_all_orders v = fst (cancel_loop v qs2_exchange (active_orders v))"

text \<open>
  \<^verbatim>\<open>calculate_price_ceiling_floor\<close>: the last row is read, then the upper band is
  assigned, then the lower band; an exception at any of the three steps ends the method
  with what was assigned before it.
\<close>

definition calculate_price_ceiling_floor ::
  "'a qs2_world_scheme \<Rightarrow> qs2_state \<Rightarrow> qs2_state" where
  "calculate_price_ceiling_floor w s =
     (case candles_last_row w of
        None \<Rightarrow> s
      | Some last_row \<Rightarrow>
          (case last_row ''BBU_100_2.0'' of
             None \<Rightarrow> s
           | Some upper \<Rightarrow>
               (case last_row ''BBL_100_2.0'' of
                  None \<Rightarrow> s\<lparr>price_ceiling := upper\<rparr>
                | Some lower \<Rightarrow> s\<lparr>price_ceiling := upper, price_floor := lower\<rparr>)))"

text \<open>
  \<^verbatim>\<open>apply_price_ceiling_floor_filter\<close>. The loop body is an \<^verbatim>\<open>if\<close>/\<^verbatim>\<open>elif\<close> with
  short-circuit \<^verbatim>\<open>and\<close>: a SELL is compared with the floor only, a BUY with the ceiling
  only. A comparison that raises leaves the loop; the \<^verbatim>\<open>except\<close> clause of the method
  then returns the empty list.
\<close>

fun filter_loop ::
  "pynum \<Rightarrow> pynum \<Rightarrow> order_candidate list \<Rightarrow> order_candidate list
     \<Rightarrow> py_error + order_candidate list" where
  "filter_loop ceiling_price floor_price [] proposal_filtered = Inr proposal_filtered"
| "filter_loop ceiling_price floor_price (order # rest) proposal_filtered =
     (if order_side order = SELL then
        (case decimal_gt (price order) floor_price of
           Inl e \<Rightarrow> Inl e
         | Inr True \<Rightarrow> filter_loop ceiling_price floor_price rest (proposal_filtered @ [order])
         | Inr False \<Rightarrow> filter_loop ceiling_price floor_price rest proposal_filtered)
      else if order_side order = BUY then
        (case decimal_lt (price order) ceiling_price of
           Inl e \<Rightarrow> Inl e
         | Inr True \<Rightarrow> filter_loop ceiling_price floor_price rest (proposal_filtered @ [order])
         | Inr False \<Rightarrow> filter_loop ceiling_price floor_price rest proposal_filtered)
      else filter_loop ceiling_price floor_price rest proposal_filtered)"

definition apply_price_ceiling_floor_filter ::
  "qs2_state \<Rightarrow> order_candidate list \<Rightarrow> order_candidate list" where
  "apply_price_ceiling_floor_filter s proposal =
     (case filter_loop (price_ceiling s) (price_floor s) proposal [] of
        Inl e \<Rightarrow> []
      | Inr proposal_filtered \<Rightarrow> proposal_filtered)"

text \<open>
  \<^verbatim>\<open>on_tick\<close>. Every step has its own \<^verbatim>\<open>try\<close>/\<^verbatim>\<open>except\<close> and returns a value, so the
  \<^verbatim>\<open>except\<close> clause of \<^verbatim>\<open>on_tick\<close> itself is never reached from them. The result is
  the new state and the requests sent to the venue, in order.
\<close>

definition qs2_on_tick :: "'a qs2_world_scheme \<Rightarrow> qs2_state \<Rightarrow> qs2_state \<times> venue_call list" where
  "qs2_on_tick w s =
     (if create_timestamp s \<le> current_timestamp w then
        (if is_ready w then
           (let cancelled = qs2_cancel_all_orders w;
                s1 = calculate_price_ceiling_floor w s;
                proposal = qs2_create_proposal w;
                proposal_filtered = apply_price_ceiling_floor_filter s1 proposal;
                proposal_adjusted = adjust_proposal_to_budget w proposal_filtered;
                placed = qs2_place_orders w proposal_adjusted
            in (s1\<lparr>create_timestamp := of_int qs2_order_refresh_time + current_timestamp w\<rparr>,
                cancelled @ placed))
         else (s, []))
      else (s, []))"

section \<open>The fill notification\<close>

text \<open>
  \<^verbatim>\<open>did_fill_order\<close> formats one message from the event and the exchange name, logs it
  and notifies the application. \<^verbatim>\<open>round(x, 2)\<close> of a \<^verbatim>\<open>Decimal\<close> rounds to two places,
  half to even.
\<close>

datatype order_filled_event =
  OrderFilledEvent (event_trade_type: trade_type) (event_amount: real)
    (event_trading_pair: string) (event_price: real)

definition round2 :: "real \<Rightarrow> real" where
  "round2 x = of_int (round_half_even (x * 100)) / 100"

datatype fill_message = FillMessage trade_type real string string real

datatype notice = LogInfo fill_message | NotifyApp fill_message

definition fill_msg :: "string \<Rightarrow> order_filled_event \<Rightarrow> fill_message" where
  "fill_msg exchange_name event =
     FillMessage (event_trade_type event) (round2 (event_amount event))
       (event_trading_pair event) exchange_name (round2 (event_price event))"

definition qs2_did_fill_order :: "qs2_state \<Rightarrow> order_filled_event \<Rightarrow> qs2_state \<times> notice list" where
  "qs2_did_fill_order s event =
     (let msg = fill_msg qs2_exchange event in (s, [LogInfo msg, NotifyApp msg]))"

section \<open>RSIAMM\<close>

text \<open>\<^verbatim>\<open>RSIAMMConfig\<close>, with the defaults of its fields. The two float fields can hold
  any float; 0.5 is a binary64 number. The candidate's field \<open>trading_pair\<close> has the name
  already, so the configuration's is \<open>config_trading_pair\<close>.\<close>

record rsiamm_config =
  exchange :: string
  config_trading_pair :: string
  order_amount :: real
  order_refresh_time :: int
  rsi_high :: int
  rsi_low :: int
  interval :: string
  natr_period :: int
  natr_spread_multiplier :: pynum
  max_records :: int
  rsi_spread_change :: pynum

definition default_config :: rsiamm_config where
  "default_config =
     \<lparr>exchange = ''binance'', config_trading_pair = ''BTC-USDT'', order_amount = 0.0003,
      order_refresh_time = 15, rsi_high = 70, rsi_low = 30, interval = ''3m'',
      natr_period = 100, natr_spread_multiplier = Num 0.5, max_records = 1000,
      rsi_spread_change = Num 0.5\<rparr>"

text \<open>
  What the collaborators of \<^verbatim>\<open>RSIAMM\<close> answer during one tick:
  \<^item> \<open>ready\<close>: \<^verbatim>\<open>market_data_provider.ready\<close>;
  \<^item> \<open>mid_price_by_type\<close>: the mid price, or an exception;
  \<^item> \<open>natr_series\<close>: what the indicator library's \<^verbatim>\<open>natr\<close> returns, a series of
    percentages or no series at all (\<^verbatim>\<open>None\<close>);
  \<^item> \<open>processed_df\<close>: the candle frame after the library's \<^verbatim>\<open>rsi\<close> was asked to append
    its column, as rows of cells.
\<close>

record rsiamm_world = venue +
  ready :: bool
  mid_price_by_type :: "py_error + pynum"
  natr_series :: "pynum list option"
  processed_df :: "pynum list list"

fun div_100 :: "pynum \<Rightarrow> pynum" where
  "div_100 (Num a) = float_round (a / 100)"
| "div_100 x = x"

text \<open>\<^verbatim>\<open>get_natr\<close>: \<^verbatim>\<open>natr.iloc[-1] / 100\<close>, a float division. Without a series the attribute access
  raises, on an empty series the index does.\<close>

definition get_natr :: "'a rsiamm_world_scheme \<Rightarrow> py_error + pynum" where
  "get_natr w =
     (case natr_series w of
        None \<Rightarrow> Inl AttributeError
      | Some natr \<Rightarrow> (if natr = [] then Inl IndexError else Inr (div_100 (last natr))))"

definition get_processed_df :: "'a rsiamm_world_scheme \<Rightarrow> pynum list list" where
  "get_processed_df w = processed_df w"

text \<open>The \<^verbatim>\<open>if\<close>/\<^verbatim>\<open>elif\<close>/\<^verbatim>\<open>else\<close> of \<^verbatim>\<open>get_rsi_signal\<close>: the test against \<^verbatim>\<open>rsi_high\<close>
  comes first.\<close>

definition rsi_signal_of :: "rsiamm_config \<Rightarrow> pynum \<Rightarrow> int" where
  "rsi_signal_of cfg rsi_value =
     (if float_gt rsi_value (Num (of_int (rsi_high cfg))) then - 1
      else if float_lt rsi_value (Num (of_int (rsi_low cfg))) then 1
      else 0)"

text \<open>\<^verbatim>\<open>get_rsi_signal\<close>: \<^verbatim>\<open>candles_df.iat[-1, -1]\<close> is the last cell of the last row.\<close>

definition get_rsi_signal :: "rsiamm_config \<Rightarrow> 'a rsiamm_world_scheme \<Rightarrow> py_error + int" where
  "get_rsi_signal cfg w =
     (let candles_df = get_processed_df w
      in if candles_df = [] then Inl IndexError
         else if last candles_df = [] then Inl IndexError
         else Inr (rsi_signal_of cfg (last (last candles_df))))"

text \<open>The shift of the mid price in \<^verbatim>\<open>create_proposal\<close>: the factor
  \<^verbatim>\<open>1 + natr_spread_multiplier * natr * rsi_spread_change\<close> is computed in floats, from
  the left, and the product with the mid price is a \<^verbatim>\<open>Decimal\<close> product.\<close>

definition adjusted_mid_price ::
  "rsiamm_config \<Rightarrow> pynum \<Rightarrow> pynum \<Rightarrow> int \<Rightarrow> py_error + pynum" where
  "adjusted_mid_price cfg mid_price natr rsi_signal =
     (if rsi_signal = 1 then
        dec_mul mid_price
          (fl_add (Num 1)
             (fl_mul (fl_mul (natr_spread_multiplier cfg) natr) (rsi_spread_change cfg)))
      else if rsi_signal = - 1 then
        dec_mul mid_price
          (fl_sub (Num 1)
             (fl_mul (fl_mul (natr_spread_multiplier cfg) natr) (rsi_spread_change cfg)))
      else Inr mid_price)"

definition rsiamm_create_proposal ::
  "rsiamm_config \<Rightarrow> 'a rsiamm_world_scheme \<Rightarrow> pynum \<Rightarrow> py_error + order_candidate list" where
  "rsiamm_create_proposal cfg w mid_price =
     (case get_natr w of
        Inl e \<Rightarrow> Inl e
      | Inr natr \<Rightarrow>
          (case get_rsi_signal cfg w of
             Inl e \<Rightarrow> Inl e
           | Inr rsi_signal \<Rightarrow>
               (case adjusted_mid_price cfg mid_price natr rsi_signal of
                  Inl e \<Rightarrow> Inl e
                | Inr adjusted \<Rightarrow>
                    (case dec_mul adjusted
                            (fl_sub (Num 1) (fl_mul (natr_spread_multiplier cfg) natr)) of
                       Inl e \<Rightarrow> Inl e
                     | Inr buy_price \<Rightarrow>
                         (case dec_mul adjusted
                                 (fl_add (Num 1) (fl_mul (natr_spread_multiplier cfg) natr)) of
                            Inl e \<Rightarrow> Inl e
                          | Inr sell_price \<Rightarrow>
                              (let buy_order = \<lparr>trading_pair = config_trading_pair cfg,
                                     is_maker = True, order_type = LIMIT, order_side = BUY,
                                     amount = Num (order_amount cfg), price = buy_price\<rparr>;
                                   sell_order = \<lparr>trading_pair = config_trading_pair cfg,
                                     is_maker = True, order_type = LIMIT, order_side = SELL,
                                     amount = Num (order_amount cfg), price = sell_price\<rparr>
                               in Inr [buy_order, sell_order]))))))"




definition rsiamm_did_fill_order ::
  "rsiamm_config \<Rightarrow> rsiamm_state \<Rightarrow> order_filled_event \<Rightarrow> rsiamm_state \<times> notice list" where
  "rsiamm_did_fill_order cfg s event =
     (let msg = fill_msg (exchange cfg) event in (s, [LogInfo msg, NotifyApp msg]))"

section \<open>The budget checker\<close>

text \<open>Exact sum and product of two numbers, indeterminate otherwise: the arithmetic of
  the specification's notional.\<close>

fun pn_add :: "pynum \<Rightarrow> pynum \<Rightarrow> pynum" where
  "pn_add (Num a) (Num b) = Num (a + b)"
| "pn_add _ _ = NaN"

fun pn_mul :: "pynum \<Rightarrow> pynum \<Rightarrow> pynum" where
  "pn_mul (Num a) (Num b) = Num (a * b)"
| "pn_mul _ _ = NaN"

text \<open>Modelled from the spec: the notional a proposal commits, its price times its
  size. The budget checker belongs to the venue connector, whose code the scripts only
  call.\<close>

definition notional :: "order_candidate \<Rightarrow> pynum" where
  "notional order = pn_mul (price order) (amount order)"

text \<open>Modelled from the spec: the total requested notional of the proposals that
  survived the filter.\<close>

fun total_notional :: "order_candidate list \<Rightarrow> pynum" where
  "total_notional [] = Num 0"
| "total_notional (order # rest) = pn_add (notional order) (total_notional rest)"

text \<open>Modelled from the spec: an order scaled down by a factor, for the proportional
  mode of the budget adjuster.\<close>

definition scale_order :: "real \<Rightarrow> order_candidate \<Rightarrow> order_candidate" where
  "scale_order factor order = order\<lparr>amount := pn_mul (amount order) (Num factor)\<rparr>"

text \<open>Modelled from the spec: the budget adjuster of the venue connector
  (\<^verbatim>\<open>budget_checker.adjust_candidates\<close>, absent from the scripts). If the total requested
  notional exceeds the available balance, the all-or-none mode drops the whole set and
  the other mode scales every proposal down proportionally; otherwise the proposals pass
  unchanged. The comparison is one between \<^verbatim>\<open>Decimal\<close>s.\<close>

definition spec_adjust_candidates ::
  "real \<Rightarrow> order_candidate list \<Rightarrow> bool \<Rightarrow> py_error + order_candidate list" where
  "spec_adjust_candidates available proposal all_or_none =
     (case total_notional proposal of
        Num requested \<Rightarrow>
          (if requested > available then
             (if all_or_none then Inr []
              else Inr (map (scale_order (available / requested)) proposal))
           else Inr proposal)
      | _ \<Rightarrow> Inl InvalidOperation)"

section \<open>Predicates of the statements\<close>

text \<open>The quantum \<open>round_sig\<close> rounds a positive number to.\<close>

definition quantum :: "nat \<Rightarrow> nat \<Rightarrow> int \<Rightarrow> real \<Rightarrow> real" where
  "quantum b p etiny x = of_nat b powi (max (expo b x - int p + 1) etiny)"

text \<open>The order of the values that are not \<^verbatim>\<open>NaN\<close>, with equality.\<close>

definition pn_le :: "pynum \<Rightarrow> pynum \<Rightarrow> bool" where
  "pn_le a b = (pn_less a b \<or> (a = b \<and> \<not> is_nan a))"

text \<open>A number that a \<^verbatim>\<open>Decimal\<close> of at most 28 significant digits can hold: rounding to
  the context leaves it as it is. (\<^verbatim>\<open>Decimal\<close>s are constructed exactly, so one can have
  more digits; every result of an arithmetic operation has at most 28.)\<close>

definition decimal28 :: "real \<Rightarrow> bool" where
  "decimal28 x = (round_sig 10 28 (- 1000026) x = x)"

text \<open>A value that is a number, and a proposal list all of whose prices are
  numbers.\<close>

definition determinate :: "pynum \<Rightarrow> bool" where
  "determinate x = (case x of Num _ \<Rightarrow> True | _ \<Rightarrow> False)"

definition priced :: "order_candidate list \<Rightarrow> bool" where
  "priced proposal = list_all (\<lambda>order. determinate (price order)) proposal"

text \<open>The band rule in the specification's words: a SELL is kept iff its price is
  strictly above the floor, a BUY iff its price is strictly below the ceiling.\<close>

definition spec_band_keeps :: "real \<Rightarrow> real \<Rightarrow> order_candidate \<Rightarrow> bool" where
  "spec_band_keeps C F order =
     (case price order of
        Num p \<Rightarrow> (order_side order = SELL \<and> p > F) \<or> (order_side order = BUY \<and> p < C)
      | _ \<Rightarrow> False)"


text \<open>The band computation gives nothing: the frame has no row, or its last row has no
  upper band column. (The indicator library appends the band columns together.)\<close>

definition no_bands :: "'a qs2_world_scheme \<Rightarrow> bool" where
  "no_bands w =
     (case candles_last_row w of
        None \<Rightarrow> True
      | Some last_row \<Rightarrow> last_row ''BBU_100_2.0'' = None)"

text \<open>An order of the quickstart pair, for the examples.\<close>

definition order_at :: "trade_type \<Rightarrow> real \<Rightarrow> order_candidate" where
  "order_at side p =
     \<lparr>trading_pair = qs2_trading_pair, is_maker = True, order_type = LIMIT,
      order_side = side, amount = Num qs2_order_amount, price = Num p\<rparr>"

text \<open>A proposal list all of whose prices are positive numbers.\<close>

definition positively_priced :: "order_candidate list \<Rightarrow> bool" where
  "positively_priced proposal =
     list_all (\<lambda>order. case price order of Num p \<Rightarrow> 0 < p | _ \<Rightarrow> False) proposal"


text \<open>The candidate \<^verbatim>\<open>RSIAMM.create_proposal\<close> builds for a side and a price.\<close>

definition quote :: "rsiamm_config \<Rightarrow> trade_type \<Rightarrow> pynum \<Rightarrow> order_candidate" where
  "quote cfg side p =
     \<lparr>trading_pair = config_trading_pair cfg, is_maker = True, order_type = LIMIT,
      order_side = side, amount = Num (order_amount cfg), price = p\<rparr>"

section \<open>Worlds for the examples\<close>

text \<open>A tick at time 20 on which every collaborator of \<^verbatim>\<open>QuickstartScript2\<close> answers:
  mid price 100, no band columns yet, 5000 of balance, nothing resting.\<close>

definition calm_world :: qs2_world where
  "calm_world =
     \<lparr>current_timestamp = 20, active_orders = [], cancel_raises = (\<lambda>_. False),
      submit_raises = (\<lambda>_. False), is_ready = True, price_by_type = Inr (Num 100),
      candles_last_row = None, adjust_candidates = spec_adjust_candidates 5000\<rparr>"


text \<open>A tick at time 20 of \<^verbatim>\<open>RSIAMM\<close>: mid price 100, the last volatility value 1 percent,
  the last momentum value 25, nothing resting, no call raises.\<close>

definition steady_world :: rsiamm_world where
  "steady_world =
     \<lparr>current_timestamp = 20, active_orders = [], cancel_raises = (\<lambda>_. False),
      submit_raises = (\<lambda>_. False), ready = True, mid_price_by_type = Inr (Num 100),
      natr_series = Some [Num 1], processed_df = [[Num 100, Num 25]]\<rparr>"



text \<open>The steady tick with two candles only, where both indicators are \<^verbatim>\<open>NaN\<close>.\<close>

definition indeterminate_world :: rsiamm_world where
  "indeterminate_world =
     steady_world\<lparr>natr_series := Some [NaN, NaN],
       processed_df := [[Num 100, NaN], [Num 101, NaN]]\<rparr>"


text \<open>The steady tick in a market that hardly moves: the last volatility value is
  \<open>2 ^ - 47\<close> percent.\<close>

definition still_world :: rsiamm_world where
  "still_world = steady_world\<lparr>natr_series := Some [Num (2 powi (- 47))]\<rparr>"

text \<open>The steady tick with a momentum column that is \<^verbatim>\<open>NaN\<close>, the volatility value still
  1 percent.\<close>

definition momentum_gap_world :: rsiamm_world where
  "momentum_gap_world = steady_world\<lparr>processed_df := [[Num 100, NaN], [Num 101, NaN]]\<rparr>"

text \<open>The steady tick with the last momentum value 75.\<close>

definition overbought_world :: rsiamm_world where
  "overbought_world = steady_world\<lparr>processed_df := [[Num 100, Num 75]]\<rparr>"

section \<open>Rounding\<close>

lemma rhe_of_int: "round_half_even (of_int n) = n"
  by (simp add: round_half_even_def)

lemma rhe_range: "\<lfloor>x\<rfloor> \<le> round_half_even x \<and> round_half_even x \<le> \<lfloor>x\<rfloor> + 1"
  by (simp add: round_half_even_def Let_def)

lemma rhe_mono: "x \<le> y \<Longrightarrow> round_half_even x \<le> round_half_even y"
proof -
  assume xy: "x \<le> y"
  then have f: "\<lfloor>x\<rfloor> \<le> \<lfloor>y\<rfloor>" by (rule floor_mono)
  show ?thesis
  proof (cases "\<lfloor>x\<rfloor> = \<lfloor>y\<rfloor>")
    case True
    with xy have "x - of_int \<lfloor>x\<rfloor> \<le> y - of_int \<lfloor>y\<rfloor>" by simp
    with True show ?thesis
      by (auto simp: round_half_even_def Let_def)
  next
    case False
    with f have "\<lfloor>x\<rfloor> + 1 \<le> \<lfloor>y\<rfloor>" by simp
    with rhe_range [of x] rhe_range [of y] show ?thesis by linarith
  qed
qed

lemma rhe_error: "\<bar>of_int (round_half_even x) - x\<bar> \<le> 1 / 2"
  by (auto simp: round_half_even_def Let_def abs_if) linarith+

lemma expo_bounds:
  assumes b: "1 < b" and x: "0 < x"
  shows "of_nat b powi expo b x \<le> x \<and> x < of_nat b powi (expo b x + 1)"
proof (cases "1 \<le> x")
  case True
  let ?n = "nat \<lfloor>x\<rfloor>"
  have n: "0 < ?n" using True by simp
  from floorlog_bounds [OF n b]
  have lo: "b ^ (floorlog b ?n - 1) \<le> ?n" and hi: "?n < b ^ floorlog b ?n" by simp_all
  have "floorlog b ?n \<noteq> 0" using n b by (simp add: floorlog_eq_zero_iff)
  then have pos: "0 < floorlog b ?n" by simp
  have e: "expo b x = int (floorlog b ?n - 1)" using True pos by (simp add: expo_def)
  have "real (b ^ (floorlog b ?n - 1)) \<le> real ?n" using lo by (simp only: of_nat_le_iff)
  also have "\<dots> \<le> x" using True by simp
  finally have 1: "of_nat b powi expo b x \<le> x" by (simp add: e)
  have "?n + 1 \<le> b ^ floorlog b ?n" using hi by simp
  then have "real (?n + 1) \<le> real (b ^ floorlog b ?n)" by (simp only: of_nat_le_iff)
  moreover have "x < real (?n + 1)" using True by simp linarith
  ultimately have "x < real (b ^ floorlog b ?n)" by linarith
  moreover have "expo b x + 1 = int (floorlog b ?n)" using e pos by simp
  ultimately have 2: "x < of_nat b powi (expo b x + 1)" by simp
  from 1 2 show ?thesis ..
next
  case False
  then have x1: "x < 1" by simp
  let ?y = "1 / x"
  have y: "1 < ?y" using x x1 by simp
  let ?n = "nat (\<lceil>?y\<rceil> - 1)"
  have c2: "2 \<le> \<lceil>?y\<rceil>" using y by linarith
  then have n: "0 < ?n" by simp
  have "0 \<le> \<lceil>?y\<rceil> - 1" using c2 by linarith
  then have nn: "real ?n = of_int (\<lceil>?y\<rceil> - 1)" by (simp only: of_nat_nat)
  from floorlog_bounds [OF n b]
  have lo: "b ^ (floorlog b ?n - 1) \<le> ?n" and hi: "?n < b ^ floorlog b ?n" by simp_all
  let ?k = "floorlog b ?n"
  have "?k \<noteq> 0" using n b by (simp add: floorlog_eq_zero_iff)
  then have pos: "0 < ?k" by simp
  have e: "expo b x = - int ?k" using False by (simp add: expo_def)
  have bpos: "0 < (of_nat b :: real)" using b by simp
  have "?n + 1 \<le> b ^ ?k" using hi by simp
  then have a1: "real (?n + 1) \<le> real (b ^ ?k)" by (simp only: of_nat_le_iff)
  have a2: "real (?n + 1) = of_int \<lceil>?y\<rceil>" using nn by simp
  have a3: "?y \<le> of_int \<lceil>?y\<rceil>" by (rule le_of_int_ceiling)
  have "?y \<le> real (b ^ ?k)" using a1 a2 a3 by linarith
  then have "?y \<le> real b ^ ?k" by simp
  then have "1 \<le> x * real b ^ ?k" using x by (simp add: field_simps)
  then have "1 / real b ^ ?k \<le> x" using bpos by (simp add: field_simps)
  then have 1: "of_nat b powi expo b x \<le> x"
    by (simp add: e power_int_minus_divide)
  have b1: "real (b ^ (?k - 1)) \<le> real ?n" using lo by (simp only: of_nat_le_iff)
  have b2: "real ?n = of_int \<lceil>?y\<rceil> - 1" using nn by simp
  have b3: "of_int \<lceil>?y\<rceil> - 1 < ?y" by linarith
  have "real (b ^ (?k - 1)) < ?y" using b1 b2 b3 by linarith
  then have "real b ^ (?k - 1) < ?y" by simp
  then have "x * real b ^ (?k - 1) < 1" using x by (simp add: field_simps)
  then have "x < 1 / real b ^ (?k - 1)" using bpos by (simp add: field_simps)
  moreover have "expo b x + 1 = - int (?k - 1)" using e pos by simp
  ultimately have 2: "x < of_nat b powi (expo b x + 1)"
    by (simp add: power_int_minus_divide)
  from 1 2 show ?thesis ..
qed

lemma powi_less_cancel:
  fixes a :: real
  assumes "1 < a" and "a powi m < a powi n"
  shows "m < n"
proof (rule ccontr)
  assume "\<not> m < n"
  then have "n \<le> m" by simp
  then have "a powi n \<le> a powi m" using assms(1) by (simp add: power_int_increasing)
  with assms(2) show False by simp
qed

lemma expo_unique:
  assumes b: "1 < b" and lo: "of_nat b powi e \<le> x" and hi: "x < of_nat b powi (e + 1)"
  shows "expo b x = e"
proof -
  have b1: "1 < (of_nat b :: real)" using b by simp
  have x: "0 < x"
  proof -
    have "0 < (of_nat b :: real) powi e" using b by simp
    with lo show ?thesis by linarith
  qed
  from expo_bounds [OF b x]
  have lo': "of_nat b powi expo b x \<le> x" and hi': "x < of_nat b powi (expo b x + 1)" by simp_all
  have "(of_nat b :: real) powi e < of_nat b powi (expo b x + 1)" using lo hi' by linarith
  then have 1: "e < expo b x + 1" using b1 by (rule powi_less_cancel [rotated])
  have "(of_nat b :: real) powi expo b x < of_nat b powi (e + 1)" using lo' hi by linarith
  then have 2: "expo b x < e + 1" using b1 by (rule powi_less_cancel [rotated])
  from 1 2 show ?thesis by simp
qed

lemma quantum_pos: "0 < b \<Longrightarrow> 0 < quantum b p t x"
  by (simp add: quantum_def)

lemma round_sig_pos:
  "0 < x \<Longrightarrow> round_sig b p t x = quantum b p t x * of_int (round_half_even (x / quantum b p t x))"
  by (simp add: round_sig_def quantum_def Let_def)

lemma round_sig_zero: "round_sig b p t 0 = 0"
  by (simp add: round_sig_def)

lemma round_sig_minus: "round_sig b p t (- x) = - round_sig b p t x"
  by (simp add: round_sig_def Let_def sgn_minus)

lemma rhe_nonneg: "0 \<le> x \<Longrightarrow> 0 \<le> round_half_even x"
  using rhe_mono [of 0 x] rhe_of_int [of 0] by simp

lemma round_sig_nonneg: "0 < b \<Longrightarrow> 0 \<le> x \<Longrightarrow> 0 \<le> round_sig b p t x"
proof (cases "x = 0")
  case True
  then show ?thesis by (simp add: round_sig_zero)
next
  case False
  assume b: "0 < b" and "0 \<le> x"
  with False have x: "0 < x" by simp
  have "0 \<le> x / quantum b p t x" using x quantum_pos [OF b, of p t x] by simp
  then have "0 \<le> round_half_even (x / quantum b p t x)" by (rule rhe_nonneg)
  then show ?thesis using quantum_pos [OF b, of p t x] by (simp add: round_sig_pos [OF x])
qed

lemma powi_int: "0 \<le> n \<Longrightarrow> (of_nat b :: real) powi n = of_int (int (b ^ nat n))"
  by (simp add: power_int_nonneg_exp)

lemma rhe_ge_powi:
  assumes "0 \<le> n" and "of_nat b powi n \<le> z"
  shows "of_nat b powi n \<le> (of_int (round_half_even z) :: real)"
proof -
  have "round_half_even (of_int (int (b ^ nat n))) \<le> round_half_even z"
    using assms by (intro rhe_mono) (simp add: powi_int)
  then have "int (b ^ nat n) \<le> round_half_even z" by (simp only: rhe_of_int)
  then have "(of_int (int (b ^ nat n)) :: real) \<le> of_int (round_half_even z)"
    by (simp only: of_int_le_iff)
  then show ?thesis using assms(1) by (simp only: powi_int)
qed

lemma rhe_le_powi:
  assumes "0 \<le> n" and "z \<le> of_nat b powi n"
  shows "(of_int (round_half_even z) :: real) \<le> of_nat b powi n"
proof -
  have "round_half_even z \<le> round_half_even (of_int (int (b ^ nat n)))"
    using assms by (intro rhe_mono) (simp add: powi_int)
  then have "round_half_even z \<le> int (b ^ nat n)" by (simp only: rhe_of_int)
  then have "(of_int (round_half_even z) :: real) \<le> of_int (int (b ^ nat n))"
    by (simp only: of_int_le_iff)
  then show ?thesis using assms(1) by (simp only: powi_int)
qed

lemma div_le_by_mult: "0 < (q::real) \<Longrightarrow> x \<le> q * B \<Longrightarrow> x / q \<le> B"
  by (simp add: field_simps)

lemma le_div_by_mult: "0 < (q::real) \<Longrightarrow> q * B \<le> x \<Longrightarrow> B \<le> x / q"
  by (simp add: field_simps)

lemma powi_split: "1 < b \<Longrightarrow> (of_nat b :: real) powi m = of_nat b powi g * of_nat b powi (m - g)"
  by (simp add: power_int_add [symmetric])

lemma round_sig_lower:
  assumes b: "1 < b" and x: "0 < x"
    and g: "max (expo b x - int p + 1) t \<le> expo b x"
  shows "of_nat b powi expo b x \<le> round_sig b p t x"
proof -
  define e where "e = expo b x"
  define g where "g = max (expo b x - int p + 1) t"
  define q where "q = quantum b p t x"
  have q: "q = of_nat b powi g" by (simp add: q_def g_def quantum_def)
  have qpos: "0 < q" using b by (simp add: q)
  have ge: "0 \<le> e - g" using assms(3) by (simp add: e_def g_def)
  have split: "(of_nat b :: real) powi e = q * of_nat b powi (e - g)"
    unfolding q using b by (rule powi_split)
  have "of_nat b powi e \<le> x" using expo_bounds [OF b x] by (simp add: e_def)
  then have "q * of_nat b powi (e - g) \<le> x" by (simp only: split)
  then have "of_nat b powi (e - g) \<le> x / q" using qpos by (intro le_div_by_mult)
  with ge have "of_nat b powi (e - g) \<le> (of_int (round_half_even (x / q)) :: real)"
    by (intro rhe_ge_powi)
  then have "q * of_nat b powi (e - g) \<le> q * of_int (round_half_even (x / q))"
    using qpos by simp
  then have "of_nat b powi e \<le> q * of_int (round_half_even (x / q))" by (simp only: split)
  then show ?thesis by (simp only: round_sig_pos [OF x] q_def e_def)
qed

lemma round_sig_upper:
  assumes b: "1 < b" and x: "0 < x"
  shows "round_sig b p t x \<le> of_nat b powi (max (expo b x + 1) (max (expo b x - int p + 1) t))"
proof -
  define e where "e = expo b x"
  define g where "g = max (expo b x - int p + 1) t"
  define m where "m = max (e + 1) g"
  define q where "q = quantum b p t x"
  have q: "q = of_nat b powi g" by (simp add: q_def g_def quantum_def)
  have qpos: "0 < q" using b by (simp add: q)
  have b1: "1 \<le> (of_nat b :: real)" using b by simp
  have mg: "0 \<le> m - g" by (simp add: m_def)
  have split: "(of_nat b :: real) powi m = q * of_nat b powi (m - g)"
    unfolding q using b by (rule powi_split)
  have "x < of_nat b powi (e + 1)" using expo_bounds [OF b x] by (simp add: e_def)
  also have "\<dots> \<le> of_nat b powi m" using b1 by (intro power_int_increasing) (simp_all add: m_def)
  finally have "x \<le> q * of_nat b powi (m - g)" by (simp only: split)
  then have "x / q \<le> of_nat b powi (m - g)" using qpos by (intro div_le_by_mult)
  with mg have "(of_int (round_half_even (x / q)) :: real) \<le> of_nat b powi (m - g)"
    by (intro rhe_le_powi)
  then have "q * of_int (round_half_even (x / q)) \<le> q * of_nat b powi (m - g)"
    using qpos by simp
  then have "q * of_int (round_half_even (x / q)) \<le> of_nat b powi m" by (simp only: split)
  then show ?thesis by (simp only: round_sig_pos [OF x] q_def m_def e_def g_def)
qed

lemma expo_mono:
  assumes b: "1 < b" and x: "0 < x" and xy: "x \<le> y"
  shows "expo b x \<le> expo b y"
proof -
  have y: "0 < y" using x xy by simp
  have b1: "1 < (of_nat b :: real)" using b by simp
  have "of_nat b powi expo b x \<le> x" using expo_bounds [OF b x] by simp
  also have "\<dots> \<le> y" by (rule xy)
  also have "\<dots> < of_nat b powi (expo b y + 1)" using expo_bounds [OF b y] by simp
  finally have "expo b x < expo b y + 1" using b1 by (rule powi_less_cancel [rotated])
  then show ?thesis by simp
qed

lemma round_sig_mono_pos:
  assumes b: "1 < b" and p: "0 < p" and x: "0 < x" and xy: "x \<le> y"
  shows "round_sig b p t x \<le> round_sig b p t y"
proof -
  have y: "0 < y" using x xy by simp
  have b0: "0 < b" using b by simp
  have b1: "1 \<le> (of_nat b :: real)" using b by simp
  define ex where "ex = expo b x"
  define ey where "ey = expo b y"
  define gx where "gx = max (ex - int p + 1) t"
  define gy where "gy = max (ey - int p + 1) t"
  have e: "ex \<le> ey" unfolding ex_def ey_def using b x xy by (rule expo_mono)
  then have g: "gx \<le> gy" by (simp add: gx_def gy_def)
  have qx: "quantum b p t x = of_nat b powi gx" by (simp add: quantum_def gx_def ex_def)
  have qy: "quantum b p t y = of_nat b powi gy" by (simp add: quantum_def gy_def ey_def)
  show ?thesis
  proof (cases "gx = gy")
    case True
    then have q: "quantum b p t x = quantum b p t y" by (simp add: qx qy)
    have "x / quantum b p t y \<le> y / quantum b p t y"
      using xy quantum_pos [OF b0, of p t y] by (simp add: divide_right_mono)
    then have "round_half_even (x / quantum b p t y) \<le> round_half_even (y / quantum b p t y)"
      by (rule rhe_mono)
    then have "(of_int (round_half_even (x / quantum b p t y)) :: real)
        \<le> of_int (round_half_even (y / quantum b p t y))" by simp
    then show ?thesis
      using quantum_pos [OF b0, of p t y] by (simp add: round_sig_pos [OF x] round_sig_pos [OF y] q)
  next
    case False
    with g have lt: "gx < gy" by simp
    have "t \<le> gx" by (simp add: gx_def)
    with lt have tgy: "t < gy" by simp
    then have gy: "gy = ey - int p + 1" by (simp add: gy_def max_def split: if_splits)
    have "ex - int p + 1 \<le> gx" by (simp add: gx_def)
    with lt gy have elt: "ex + 1 \<le> ey" by linarith
    have gye: "gy \<le> ey" using gy p by simp
    have gxe: "gx \<le> ey" using lt gye by simp
    have up: "round_sig b p t x \<le> of_nat b powi (max (ex + 1) gx)"
      unfolding ex_def gx_def using b x by (rule round_sig_upper)
    have "max (ex + 1) gx \<le> ey" using elt gxe by simp
    then have m: "(of_nat b :: real) powi (max (ex + 1) gx) \<le> of_nat b powi ey"
      using b1 by (intro power_int_increasing)
    have "max (expo b y - int p + 1) t \<le> expo b y" using gye by (simp add: gy_def ey_def)
    with b y have "of_nat b powi expo b y \<le> round_sig b p t y" by (rule round_sig_lower)
    then have "of_nat b powi ey \<le> round_sig b p t y" by (simp add: ey_def)
    with up m show ?thesis by linarith
  qed
qed

lemma round_sig_mono:
  assumes b: "1 < b" and p: "0 < p" and xy: "x \<le> y"
  shows "round_sig b p t x \<le> round_sig b p t y"
proof -
  have b0: "0 < b" using b by simp
  consider "0 < x" | "x \<le> 0" "0 \<le> y" | "y < 0" by linarith
  then show ?thesis
  proof cases
    case 1
    then show ?thesis using b p xy by (intro round_sig_mono_pos)
  next
    case 2
    have "0 \<le> round_sig b p t (- x)" using b0 2(1) by (intro round_sig_nonneg) simp_all
    then have "round_sig b p t x \<le> 0" using round_sig_minus [of b p t x] by simp
    moreover have "0 \<le> round_sig b p t y" using b0 2(2) by (rule round_sig_nonneg)
    ultimately show ?thesis by simp
  next
    case 3
    then have "0 < - y" and "- y \<le> - x" using xy by simp_all
    then have "round_sig b p t (- y) \<le> round_sig b p t (- x)" using b p by (intro round_sig_mono_pos)
    then show ?thesis by (simp add: round_sig_minus)
  qed
qed

text \<open>A value on its own grid is a fixed point.\<close>

lemma round_sig_grid:
  assumes x: "0 < x" and k: "x = quantum b p t x * of_int k" and b: "0 < b"
  shows "round_sig b p t x = x"
proof -
  have "x / quantum b p t x = of_int k"
    using quantum_pos [OF b, of p t x] k by (metis nonzero_mult_div_cancel_left less_irrefl)
  then have "round_half_even (x / quantum b p t x) = k" by (simp add: rhe_of_int)
  then show ?thesis using k by (simp add: round_sig_pos [OF x])
qed

text \<open>Evaluation with the exponent given.\<close>

lemma round_sig_eval:
  assumes b: "1 < b" and x: "0 < x"
    and lo: "of_nat b powi e \<le> x" and hi: "x < of_nat b powi (e + 1)"
  shows "round_sig b p t x
    = of_nat b powi (max (e - int p + 1) t)
        * of_int (round_half_even (x / of_nat b powi (max (e - int p + 1) t)))"
proof -
  have "expo b x = e" using b lo hi by (rule expo_unique)
  then show ?thesis by (simp add: round_sig_pos [OF x] quantum_def)
qed


text \<open>Evaluation of the two roundings with the exponent given.\<close>

lemma float_round_num:
  assumes x: "0 < x" and lo: "2 powi e \<le> x" and hi: "x < 2 powi (e + 1)"
    and r: "r = 2 powi (max (e - 52) (- 1074))
                 * of_int (round_half_even (x / 2 powi (max (e - 52) (- 1074))))"
    and small: "r < 2 ^ 1024" and pos: "0 \<le> r"
  shows "float_round x = Num r"
proof -
  have "round_sig 2 53 (- 1074) x = r"
    using round_sig_eval [of 2 x e 53 "- 1074"] x lo hi r by simp
  then show ?thesis using small pos by (simp add: float_round_def)
qed

lemma expo_round_le:
  assumes b: "1 < b" and x: "0 < x" and r: "0 < round_sig b p t x"
  shows "expo b (round_sig b p t x) \<le> max (expo b x + 1) t"
proof -
  define m where "m = max (expo b x + 1) t"
  have b1: "1 < (of_nat b :: real)" using b by simp
  have "max (expo b x + 1) (max (expo b x - int p + 1) t) \<le> m" by (simp add: m_def)
  then have "(of_nat b :: real) powi (max (expo b x + 1) (max (expo b x - int p + 1) t))
      \<le> of_nat b powi m"
    using b1 by (intro power_int_increasing) simp_all
  with round_sig_upper [OF b x, of p t] have "round_sig b p t x \<le> of_nat b powi m" by linarith
  also have "\<dots> < of_nat b powi (m + 1)" using b1 by (intro power_int_strict_increasing) simp_all
  finally have "round_sig b p t x < of_nat b powi (m + 1)" .
  moreover have "of_nat b powi expo b (round_sig b p t x) \<le> round_sig b p t x"
    using expo_bounds [OF b r] by simp
  ultimately have "(of_nat b :: real) powi expo b (round_sig b p t x) < of_nat b powi (m + 1)"
    by linarith
  then have "expo b (round_sig b p t x) < m + 1" using b1 by (rule powi_less_cancel [rotated])
  then show ?thesis by (simp add: m_def)
qed

lemma decimal_round_num:
  assumes x: "0 < x" and lo: "10 powi e \<le> x" and hi: "x < 10 powi (e + 1)"
    and emin: "- 999999 \<le> e" and emax: "e \<le> 999998"
    and r: "r = 10 powi (e - 27) * of_int (round_half_even (x / 10 powi (e - 27)))"
  shows "decimal_round x = Inr (Num r)"
proof -
  have m: "max (e - int 28 + 1) (- 1000026) = e - 27" using emin by simp
  have e: "expo 10 x = e" using expo_unique [of 10 e x] lo hi by simp
  have R: "round_sig 10 28 (- 1000026) x = r"
    using round_sig_eval [of 10 x e 28 "- 1000026"] x lo hi r by (simp only: m) simp
  have "\<not> (r \<noteq> 0 \<and> 999999 < expo 10 \<bar>r\<bar>)"
  proof (cases "r = 0")
    case True
    then show ?thesis by simp
  next
    case False
    have "0 \<le> round_sig 10 28 (- 1000026) x" using x by (intro round_sig_nonneg) simp_all
    with False R have rp: "0 < round_sig 10 28 (- 1000026) x" by simp
    have "expo 10 (round_sig 10 28 (- 1000026) x) \<le> max (expo 10 x + 1) (- 1000026)"
      using x rp by (intro expo_round_le) simp_all
    then have "expo 10 r \<le> 999999" using e emax R by simp
    moreover have "\<bar>r\<bar> = r" using rp R by simp
    ultimately show ?thesis by simp
  qed
  then show ?thesis using R by (simp add: decimal_round_def Let_def)
qed

lemma expo_less:
  assumes b: "1 < b" and x: "0 < x" and lt: "x < of_nat b powi n"
  shows "expo b x < n"
proof -
  have b1: "1 < (of_nat b :: real)" using b by simp
  have "of_nat b powi expo b x \<le> x" using expo_bounds [OF b x] by simp
  with lt have "(of_nat b :: real) powi expo b x < of_nat b powi n" by linarith
  then show ?thesis using b1 by (rule powi_less_cancel [rotated])
qed

lemma quantum_decimal_normal:
  "- 999999 \<le> expo 10 x \<Longrightarrow> quantum 10 28 (- 1000026) x = 10 powi (expo 10 x - 27)"
  by (simp add: quantum_def)

lemma dec_strict_up:
  assumes m: "0 < m" and fixd: "round_sig 10 28 (- 1000026) m = m"
    and normal: "- 999999 \<le> expo 10 m" and y: "m * (1 + 2 powi (- 52)) \<le> y"
  shows "m < round_sig 10 28 (- 1000026) y"
proof -
  define e where "e = expo 10 m"
  define q where "q = (10::real) powi (e - 27)"
  define k where "k = round_half_even (m / q)"
  have qm: "quantum 10 28 (- 1000026) m = q"
    using normal by (simp add: quantum_decimal_normal q_def e_def)
  have "round_sig 10 28 (- 1000026) m = q * of_int k"
    by (simp add: round_sig_pos [OF m] qm k_def)
  with fixd have mk: "m = q * of_int k" by simp
  have qpos: "0 < q" by (simp add: q_def)
  have bounds: "10 powi e \<le> m \<and> m < 10 powi (e + 1)"
    using expo_bounds [of 10 m] m by (simp add: e_def)
  have split: "(10::real) powi e = q * 10 powi 27"
    unfolding q_def using powi_split [of 10 e "e - 27"] by simp
  have num: "(1::real) \<le> 10 powi 27 * 2 powi (- 52)" by simp
  have "q * 1 \<le> q * (10 powi 27 * 2 powi (- 52))"
    using qpos num by (intro mult_left_mono) simp_all
  also have "\<dots> = 10 powi e * 2 powi (- 52)" by (simp only: split mult.assoc)
  also have "\<dots> \<le> m * 2 powi (- 52)"
    using bounds by (intro mult_right_mono) simp_all
  finally have big: "q \<le> m * 2 powi (- 52)" by simp
  have "m * (1 + 2 powi (- 52)) = m + m * 2 powi (- 52)" by (simp add: algebra_simps)
  with y big have yq: "m + q \<le> y" by linarith
  have my: "m \<le> y" using yq qpos by linarith
  have ypos: "0 < y" using m my by linarith
  have ey: "e \<le> expo 10 y" unfolding e_def using m my by (intro expo_mono) simp_all
  show ?thesis
  proof (cases "expo 10 y = e")
    case True
    then have qy: "quantum 10 28 (- 1000026) y = q"
      using normal by (simp add: quantum_decimal_normal q_def e_def)
    have "(m + q) / q \<le> y / q" using yq qpos by (simp add: divide_right_mono)
    moreover have "(m + q) / q = of_int (k + 1)" using mk qpos by (simp add: field_simps)
    ultimately have "of_int (k + 1) \<le> y / q" by simp
    then have "round_half_even (of_int (k + 1)) \<le> round_half_even (y / q)" by (rule rhe_mono)
    then have "k + 1 \<le> round_half_even (y / q)" by (simp only: rhe_of_int)
    then have "(of_int (k + 1) :: real) \<le> of_int (round_half_even (y / q))"
      by (simp only: of_int_le_iff)
    then have "q * of_int (k + 1) \<le> q * of_int (round_half_even (y / q))"
      using qpos by simp
    moreover have "q * of_int (k + 1) = m + q" using mk by (simp add: algebra_simps)
    ultimately have "m + q \<le> round_sig 10 28 (- 1000026) y"
      by (simp add: round_sig_pos [OF ypos] qy)
    with qpos show ?thesis by linarith
  next
    case False
    with ey have e1: "e + 1 \<le> expo 10 y" by simp
    have "max (expo 10 y - int 28 + 1) (- 1000026) \<le> expo 10 y"
      using e1 normal by (simp add: e_def)
    then have "of_nat 10 powi expo 10 y \<le> round_sig 10 28 (- 1000026) y"
      using ypos by (intro round_sig_lower) simp_all
    moreover have "(10::real) powi (e + 1) \<le> 10 powi expo 10 y"
      using e1 by (intro power_int_increasing) simp_all
    ultimately show ?thesis using bounds by simp
  qed
qed

lemma dec_strict_down:
  assumes m: "0 < m" and fixd: "round_sig 10 28 (- 1000026) m = m"
    and normal: "- 999999 \<le> expo 10 m" and y: "y \<le> m * (1 - 2 powi (- 52))"
  shows "round_sig 10 28 (- 1000026) y < m"
proof (cases "0 < y")
  case False
  then have "y \<le> 0" by simp
  then have "round_sig 10 28 (- 1000026) y \<le> round_sig 10 28 (- 1000026) 0"
    by (intro round_sig_mono) simp_all
  then show ?thesis using m by (simp add: round_sig_zero)
next
  case ypos: True
  define e where "e = expo 10 m"
  define q where "q = (10::real) powi (e - 27)"
  define k where "k = round_half_even (m / q)"
  have qm: "quantum 10 28 (- 1000026) m = q"
    using normal by (simp add: quantum_decimal_normal q_def e_def)
  have "round_sig 10 28 (- 1000026) m = q * of_int k"
    by (simp add: round_sig_pos [OF m] qm k_def)
  with fixd have mk: "m = q * of_int k" by simp
  have qpos: "0 < q" by (simp add: q_def)
  have bounds: "10 powi e \<le> m \<and> m < 10 powi (e + 1)"
    using expo_bounds [of 10 m] m by (simp add: e_def)
  have split: "(10::real) powi e = q * 10 powi 27"
    unfolding q_def using powi_split [of 10 e "e - 27"] by simp
  have num: "(1::real) \<le> 10 powi 27 * 2 powi (- 52)" by simp
  have "q * 1 \<le> q * (10 powi 27 * 2 powi (- 52))"
    using qpos num by (intro mult_left_mono) simp_all
  also have "\<dots> = 10 powi e * 2 powi (- 52)" by (simp only: split mult.assoc)
  also have "\<dots> \<le> m * 2 powi (- 52)"
    using bounds by (intro mult_right_mono) simp_all
  finally have big: "q \<le> m * 2 powi (- 52)" by simp
  have "m * (1 - 2 powi (- 52)) = m - m * 2 powi (- 52)" by (simp add: algebra_simps)
  with y big have yq: "y \<le> m - q" by linarith
  have ym: "y \<le> m" using yq qpos by linarith
  have ey: "expo 10 y \<le> e" unfolding e_def using ypos ym by (intro expo_mono) simp_all
  define g' where "g' = max (expo 10 y - 27) (- 1000026)"
  define q' where "q' = (10::real) powi g'"
  have qy: "quantum 10 28 (- 1000026) y = q'" by (simp add: quantum_def q'_def g'_def)
  have q'pos: "0 < q'" by (simp add: q'_def)
  have gg: "g' \<le> e - 27" using ey normal by (simp add: g'_def e_def)
  then have d: "0 \<le> e - 27 - g'" by simp
  have qq: "q = q' * 10 powi (e - 27 - g')"
    unfolding q_def q'_def using powi_split [of 10 "e - 27" g'] by simp
  have ten: "(10::real) powi (e - 27 - g') = of_int (int (10 ^ nat (e - 27 - g')))"
    using powi_int [OF d, of 10] by simp
  have "1 \<le> int (10 ^ nat (e - 27 - g'))" by simp
  then have "(1::real) \<le> of_int (int (10 ^ nat (e - 27 - g')))" by (simp only: of_int_1_le_iff)
  then have q'q: "q' \<le> q" using q'pos by (simp add: qq ten)
  define K where "K = int (10 ^ nat (e - 27 - g')) * k"
  have mK: "m = q' * of_int K" by (simp add: mk qq ten K_def)
  have "y \<le> m - q'" using yq q'q by linarith
  then have "y / q' \<le> (m - q') / q'" using q'pos by (simp add: divide_right_mono)
  moreover have "(m - q') / q' = of_int (K - 1)" using mK q'pos by (simp add: field_simps)
  ultimately have "y / q' \<le> of_int (K - 1)" by simp
  then have "round_half_even (y / q') \<le> round_half_even (of_int (K - 1))" by (rule rhe_mono)
  then have "round_half_even (y / q') \<le> K - 1" by (simp only: rhe_of_int)
  then have "(of_int (round_half_even (y / q')) :: real) \<le> of_int (K - 1)"
    by (simp only: of_int_le_iff)
  then have "q' * of_int (round_half_even (y / q')) \<le> q' * of_int (K - 1)"
    using q'pos by simp
  moreover have "q' * of_int (K - 1) = m - q'" using mK by (simp add: algebra_simps)
  ultimately have "round_sig 10 28 (- 1000026) y \<le> m - q'"
    by (simp add: round_sig_pos [OF ypos] qy)
  with q'pos show ?thesis by linarith
qed

text \<open>A rounded value is on the grid of its own exponent.\<close>

lemma round_sig_idem:
  assumes b: "1 < b" and p: "0 < p"
  shows "round_sig b p t (round_sig b p t x) = round_sig b p t x"
proof -
  have pos: "round_sig b p t (round_sig b p t x) = round_sig b p t x" if x: "0 < x" for x
  proof -
    define e where "e = expo b x"
    define g where "g = max (e - int p + 1) t"
    define q where "q = (of_nat b :: real) powi g"
    define n where "n = round_half_even (x / q)"
    define r where "r = round_sig b p t x"
    have b0: "0 < b" using b by simp
    have b1: "1 < (of_nat b :: real)" using b by simp
    have qx: "quantum b p t x = q" by (simp add: quantum_def q_def g_def e_def)
    have qpos: "0 < q" using b by (simp add: q_def)
    have r: "r = q * of_int n" by (simp add: r_def round_sig_pos [OF x] qx n_def)
    have rn: "0 \<le> r" unfolding r_def using b0 x by (intro round_sig_nonneg) simp_all
    show ?thesis
    proof (cases "r = 0")
      case True
      then show ?thesis by (simp add: r_def [symmetric] round_sig_zero)
    next
      case False
      with rn have rpos: "0 < r" by simp
      have npos: "0 < n" using rpos qpos r by (simp add: zero_less_mult_iff)
      have up: "r \<le> of_nat b powi (max (e + 1) g)"
        unfolding r_def e_def g_def using b x by (rule round_sig_upper)
      have grid: "round_sig b p t r = r" if "quantum b p t r = q"
      proof -
        have "r = quantum b p t r * of_int n" using that r by simp
        with rpos show ?thesis using b0 by (intro round_sig_grid [where k = n])
      qed
      show ?thesis
      proof (cases "g \<le> e")
        case ge: True
        then have m: "max (e + 1) g = e + 1" by simp
        have lo: "of_nat b powi e \<le> r"
          unfolding r_def e_def using b x ge by (intro round_sig_lower) (simp_all add: g_def e_def)
        show ?thesis
        proof (cases "r < of_nat b powi (e + 1)")
          case True
          have "expo b r = e" using b lo True by (rule expo_unique)
          then have "quantum b p t r = q" by (simp add: quantum_def q_def g_def)
          then have "round_sig b p t r = r" by (rule grid)
          then show ?thesis by (simp add: r_def)
        next
          case False
          with up m have req: "r = of_nat b powi (e + 1)" by simp
          have "of_nat b powi (e + 1) \<le> r" using req by simp
          moreover have "r < of_nat b powi (e + 1 + 1)"
            unfolding req using b1 by (intro power_int_strict_increasing) simp_all
          ultimately have er: "expo b r = e + 1" using b by (intro expo_unique)
          define g2 where "g2 = max (e + 1 - int p + 1) t"
          have qr: "quantum b p t r = of_nat b powi g2" by (simp add: quantum_def er g2_def)
          have g2e: "g2 \<le> e + 1" using ge p by (simp add: g2_def g_def)
          then have d: "0 \<le> e + 1 - g2" by simp
          have "r = of_nat b powi g2 * of_nat b powi (e + 1 - g2)"
            unfolding req using b by (rule powi_split)
          then have "r = quantum b p t r * of_int (int (b ^ nat (e + 1 - g2)))"
            using powi_int [OF d, of b] qr by simp
          with rpos have "round_sig b p t r = r" using b0 by (intro round_sig_grid)
          then show ?thesis by (simp add: r_def)
        qed
      next
        case False
        then have eg: "e < g" by simp
        then have gt: "g = t" using p by (simp add: g_def max_def split: if_splits)
        have m: "max (e + 1) g = g" using eg by simp
        have "q * of_int n \<le> q * 1" using up r m by (simp add: q_def)
        then have "n \<le> 1" using qpos by simp
        with npos have n1: "n = 1" by simp
        then have rq: "r = of_nat b powi g" using r by (simp add: q_def)
        have "of_nat b powi g \<le> r" using rq by simp
        moreover have "r < of_nat b powi (g + 1)"
          unfolding rq using b1 by (intro power_int_strict_increasing) simp_all
        ultimately have er: "expo b r = g" using b by (intro expo_unique)
        have "max (g - int p + 1) t = t" using gt p by simp
        then have "quantum b p t r = q" by (simp add: quantum_def er q_def gt)
        then have "round_sig b p t r = r" by (rule grid)
        then show ?thesis by (simp add: r_def)
      qed
    qed
  qed
  consider "0 < x" | "x = 0" | "x < 0" by linarith
  then show ?thesis
  proof cases
    case 1
    then show ?thesis by (rule pos)
  next
    case 2
    then show ?thesis by (simp add: round_sig_zero)
  next
    case 3
    then have "0 < - x" by simp
    from pos [OF this] show ?thesis by (simp add: round_sig_minus)
  qed
qed

lemma pn_le_Num: "pn_le (Num a) (Num b) = (a \<le> b)"
  by (auto simp: pn_le_def is_nan_def)

lemma pn_le_PosInf: "pn_le (Num a) PosInf"
  by (simp add: pn_le_def)

lemma pn_le_NegInf: "pn_le NegInf (Num a)"
  by (simp add: pn_le_def)

lemma pn_le_Num_cases:
  "pn_le (Num c) x \<Longrightarrow> x = PosInf \<or> (\<exists>y. x = Num y \<and> c \<le> y)"
  by (cases x) (auto simp: pn_le_def is_nan_def)

lemma pn_le_cases_Num:
  "pn_le x (Num c) \<Longrightarrow> x = NegInf \<or> (\<exists>y. x = Num y \<and> y \<le> c)"
  by (cases x) (auto simp: pn_le_def is_nan_def)

text \<open>Fixed points of the binary rounding.\<close>

lemma float_fixed_one: "round_sig 2 53 (- 1074) 1 = 1"
  using round_sig_eval [of 2 1 0 53 "- 1074"] by (simp add: round_half_even_def)

lemma float_fixed_above: "round_sig 2 53 (- 1074) (1 + 2 powi (- 52)) = 1 + 2 powi (- 52)"
  using round_sig_eval [of 2 "1 + 2 powi (- 52)" 0 53 "- 1074"]
  by (simp add: round_half_even_def)

lemma float_fixed_below: "round_sig 2 53 (- 1074) (1 - 2 powi (- 52)) = 1 - 2 powi (- 52)"
  using round_sig_eval [of 2 "1 - 2 powi (- 52)" "- 1" 53 "- 1074"]
  by (simp add: round_half_even_def)

lemma float_fixed_ulp: "round_sig 2 53 (- 1074) (2 powi (- 52)) = 2 powi (- 52)"
  using round_sig_eval [of 2 "2 powi (- 52)" "- 52" 53 "- 1074"]
  by (simp add: round_half_even_def)

text \<open>The float rounding is monotone, with the infinities at the ends.\<close>

lemma float_round_ge:
  assumes c: "round_sig 2 53 (- 1074) c = c" and cx: "c \<le> x" and lo: "- (2 ^ 1024) < c"
  shows "pn_le (Num c) (float_round x)"
proof -
  have "round_sig 2 53 (- 1074) c \<le> round_sig 2 53 (- 1074) x"
    using cx by (intro round_sig_mono) simp_all
  with c have "c \<le> round_sig 2 53 (- 1074) x" by simp
  with lo show ?thesis
    by (auto simp: float_round_def Let_def pn_le_Num pn_le_PosInf)
qed

lemma float_round_le:
  assumes c: "round_sig 2 53 (- 1074) c = c" and cx: "x \<le> c" and hi: "c < 2 ^ 1024"
  shows "pn_le (float_round x) (Num c)"
proof -
  have "round_sig 2 53 (- 1074) x \<le> round_sig 2 53 (- 1074) c"
    using cx by (intro round_sig_mono) simp_all
  with c have "round_sig 2 53 (- 1074) x \<le> c" by simp
  with hi show ?thesis
    by (auto simp: float_round_def Let_def pn_le_Num pn_le_NegInf)
qed

lemma float_round_bounded: "float_round x = Num r \<Longrightarrow> \<bar>r\<bar> < 2 ^ 1024"
  by (auto simp: float_round_def Let_def split: if_splits)

lemma fl_add_bounded: "fl_add (Num a) x = Num r \<Longrightarrow> \<bar>r\<bar> < 2 ^ 1024"
  by (cases x) (auto dest: float_round_bounded)

lemma fl_sub_bounded: "fl_sub (Num a) x = Num r \<Longrightarrow> \<bar>r\<bar> < 2 ^ 1024"
  unfolding fl_sub_def by (cases x) (auto dest: float_round_bounded)

text \<open>The float offsets and factors of \<^verbatim>\<open>create_proposal\<close>.\<close>

lemma fl_mul_nonneg:
  assumes "0 \<le> a" "0 \<le> b"
  shows "pn_le (Num 0) (fl_mul (Num a) (Num b))"
  using assms by (simp add: float_round_ge round_sig_zero)

lemma fl_mul_nonneg_right:
  assumes a: "pn_le (Num 0) a" and c: "0 < c"
  shows "pn_le (Num 0) (fl_mul a (Num c))"
proof -
  from pn_le_Num_cases [OF a] show ?thesis
  proof
    assume "a = PosInf"
    with c show ?thesis by (simp add: signed_inf_def pn_le_PosInf)
  next
    assume "\<exists>y. a = Num y \<and> 0 \<le> y"
    then obtain y where "a = Num y" "0 \<le> y" by blast
    with c show ?thesis using fl_mul_nonneg [of y c] by simp
  qed
qed

lemma up_factor:
  assumes "pn_le (Num d) sk" "round_sig 2 53 (- 1074) (1 + d) = 1 + d" "0 \<le> d" 
  shows "pn_le (Num (1 + d)) (fl_add (Num 1) sk)"
proof -
  from pn_le_Num_cases [OF assms(1)] show ?thesis
  proof
    assume "sk = PosInf"
    then show ?thesis by (simp add: pn_le_PosInf)
  next
    assume "\<exists>y. sk = Num y \<and> d \<le> y"
    then obtain y where "sk = Num y" "d \<le> y" by blast
    with assms(2,3) show ?thesis by (simp add: float_round_ge)
  qed
qed

lemma down_factor:
  assumes "pn_le (Num d) sk" "round_sig 2 53 (- 1074) (1 - d) = 1 - d" "0 \<le> d"
  shows "pn_le (fl_sub (Num 1) sk) (Num (1 - d))"
proof -
  have small: "1 - d < 2 ^ 1024" using assms(3) by (simp add: add_strict_increasing2)
  from pn_le_Num_cases [OF assms(1)] show ?thesis
  proof
    assume "sk = PosInf"
    then show ?thesis by (simp add: fl_sub_def pn_le_NegInf)
  next
    assume "\<exists>y. sk = Num y \<and> d \<le> y"
    then obtain y where "sk = Num y" "d \<le> y" by blast
    with assms(2) small show ?thesis by (simp add: fl_sub_def float_round_le)
  qed
qed

section \<open>The arithmetic of the prices\<close>

text \<open>The \<^verbatim>\<open>Decimal\<close> product of a positive price below \<open>10 ^ 999001\<close> and a finite float
  never overflows.\<close>

lemma round_sig_abs: "0 < b \<Longrightarrow> \<bar>round_sig b p t x\<bar> = round_sig b p t \<bar>x\<bar>"
proof (cases "0 \<le> x")
  case True
  assume "0 < b"
  then have "0 \<le> round_sig b p t x" using True by (rule round_sig_nonneg)
  with True show ?thesis by simp
next
  case False
  assume "0 < b"
  then have "0 \<le> round_sig b p t (- x)" using False by (intro round_sig_nonneg) simp_all
  with False show ?thesis by (simp add: round_sig_minus)
qed

lemma decimal_round_defined:
  assumes e: "x \<noteq> 0 \<Longrightarrow> expo 10 \<bar>x\<bar> \<le> 999997"
  shows "decimal_round x = Inr (Num (round_sig 10 28 (- 1000026) x))"
proof (cases "round_sig 10 28 (- 1000026) x = 0")
  case True
  then show ?thesis by (simp add: decimal_round_def)
next
  case False
  then have x: "x \<noteq> 0" by (auto simp: round_sig_zero)
  then have ax: "0 < \<bar>x\<bar>" by simp
  have abs: "\<bar>round_sig 10 28 (- 1000026) x\<bar> = round_sig 10 28 (- 1000026) \<bar>x\<bar>"
    by (rule round_sig_abs) simp
  with False have pos: "0 < round_sig 10 28 (- 1000026) \<bar>x\<bar>" by linarith
  have "expo 10 (round_sig 10 28 (- 1000026) \<bar>x\<bar>) \<le> max (expo 10 \<bar>x\<bar> + 1) (- 1000026)"
    using ax pos by (intro expo_round_le) simp_all
  with e [OF x] have "expo 10 (round_sig 10 28 (- 1000026) \<bar>x\<bar>) \<le> 999999" by simp
  then show ?thesis by (simp add: decimal_round_def Let_def abs)
qed

lemma dec_mul_defined:
  assumes m: "0 < m" and e: "expo 10 m \<le> 999000" and z: "\<bar>z\<bar> < 2 ^ 1024"
  shows "dec_mul (Num m) (Num z) = Inr (Num (round_sig 10 28 (- 1000026) (m * z)))"
proof -
  have "expo 10 \<bar>m * z\<bar> \<le> 999997" if nz: "m * z \<noteq> 0"
  proof -
    from nz have z0: "0 < \<bar>z\<bar>" by simp
    have pos: "0 < \<bar>m * z\<bar>" using nz by simp
    have hi: "m < 10 powi (expo 10 m + 1)" using expo_bounds [of 10 m] m by simp
    have num: "(2::real) ^ 1024 \<le> 10 powi 309" by simp
    have "\<bar>m * z\<bar> = m * \<bar>z\<bar>" using m by (simp add: abs_mult)
    also have "\<dots> < 10 powi (expo 10 m + 1) * \<bar>z\<bar>"
      using hi z0 by (rule mult_strict_right_mono)
    also have "\<dots> \<le> 10 powi (expo 10 m + 1) * 10 powi 309"
      using z num by (intro mult_left_mono) simp_all
    also have "\<dots> = 10 powi (expo 10 m + 1 + 309)" by (simp add: power_int_add)
    finally have "\<bar>m * z\<bar> < of_nat 10 powi (expo 10 m + 1 + 309)" by simp
    with pos have "expo 10 \<bar>m * z\<bar> < expo 10 m + 1 + 309" by (intro expo_less) simp_all
    with e show ?thesis by simp
  qed
  then have "decimal_round (m * z) = Inr (Num (round_sig 10 28 (- 1000026) (m * z)))"
    by (rule decimal_round_defined)
  then show ?thesis by (simp only: dec_mul.simps)
qed

lemma dec_mul_up:
  assumes m: "0 < m" and d: "decimal28 m" and e: "expo 10 m \<le> 999000"
    and f: "pn_le (Num c) f" and c: "1 \<le> c"
    and b: "\<And>r. f = Num r \<Longrightarrow> \<bar>r\<bar> < 2 ^ 1024"
  shows "\<exists>a. dec_mul (Num m) f = Inr a \<and> pn_le (Num m) a
           \<and> (- 999999 \<le> expo 10 m \<and> 1 + 2 powi (- 52) \<le> c \<longrightarrow> pn_less (Num m) a)"
proof -
  from pn_le_Num_cases [OF f] show ?thesis
  proof
    assume "f = PosInf"
    with m show ?thesis by (simp add: signed_inf_def pn_le_PosInf)
  next
    assume "\<exists>y. f = Num y \<and> c \<le> y"
    then obtain y where y: "f = Num y" and cy: "c \<le> y" by blast
    have eq: "dec_mul (Num m) f = Inr (Num (round_sig 10 28 (- 1000026) (m * y)))"
      unfolding y using m e b [OF y] by (rule dec_mul_defined)
    have "m * 1 \<le> m * y" using m c cy by (intro mult_left_mono) simp_all
    then have "round_sig 10 28 (- 1000026) m \<le> round_sig 10 28 (- 1000026) (m * y)"
      by (intro round_sig_mono) simp_all
    with d have le: "m \<le> round_sig 10 28 (- 1000026) (m * y)" by (simp add: decimal28_def)
    have "m < round_sig 10 28 (- 1000026) (m * y)"
      if n: "- 999999 \<le> expo 10 m" and s: "1 + 2 powi (- 52) \<le> c"
    proof -
      have "m * (1 + 2 powi (- 52)) \<le> m * y" using m s cy by (intro mult_left_mono) simp_all
      with m d n show ?thesis unfolding decimal28_def by (intro dec_strict_up)
    qed
    with eq le show ?thesis by (simp add: pn_le_Num)
  qed
qed

lemma dec_mul_down:
  assumes m: "0 < m" and d: "decimal28 m" and e: "expo 10 m \<le> 999000"
    and f: "pn_le f (Num c)" and c: "c \<le> 1"
    and b: "\<And>r. f = Num r \<Longrightarrow> \<bar>r\<bar> < 2 ^ 1024"
  shows "\<exists>a. dec_mul (Num m) f = Inr a \<and> pn_le a (Num m)
           \<and> (- 999999 \<le> expo 10 m \<and> c \<le> 1 - 2 powi (- 52) \<longrightarrow> pn_less a (Num m))"
proof -
  from pn_le_cases_Num [OF f] show ?thesis
  proof
    assume "f = NegInf"
    with m show ?thesis by (simp add: signed_inf_def pn_le_NegInf)
  next
    assume "\<exists>y. f = Num y \<and> y \<le> c"
    then obtain y where y: "f = Num y" and cy: "y \<le> c" by blast
    have eq: "dec_mul (Num m) f = Inr (Num (round_sig 10 28 (- 1000026) (m * y)))"
      unfolding y using m e b [OF y] by (rule dec_mul_defined)
    have "m * y \<le> m * 1" using m c cy by (intro mult_left_mono) simp_all
    then have "round_sig 10 28 (- 1000026) (m * y) \<le> round_sig 10 28 (- 1000026) m"
      by (intro round_sig_mono) simp_all
    with d have le: "round_sig 10 28 (- 1000026) (m * y) \<le> m" by (simp add: decimal28_def)
    have "round_sig 10 28 (- 1000026) (m * y) < m"
      if n: "- 999999 \<le> expo 10 m" and s: "c \<le> 1 - 2 powi (- 52)"
    proof -
      have "m * y \<le> m * (1 - 2 powi (- 52))" using m s cy by (intro mult_left_mono) simp_all
      with m d n show ?thesis unfolding decimal28_def by (intro dec_strict_down)
    qed
    with eq le show ?thesis by (simp add: pn_le_Num)
  qed
qed

text \<open>Every result of a \<^verbatim>\<open>Decimal\<close> product has at most 28 digits.\<close>

lemma dec_mul_decimal28: "dec_mul (Num a) (Num b) = Inr (Num r) \<Longrightarrow> decimal28 r"
  by (auto simp: decimal_round_def decimal28_def Let_def round_sig_idem round_sig_zero
      split: if_splits)

text \<open>The binary64 numbers of the examples: the float literal 0.02, the volatility
  \<open>1 / 100\<close>, and the factors built from them.\<close>

lemma float_0_02: "float_round 0.02 = Num (5764607523034235 / 2 ^ 58)"
  by (rule float_round_num [where e = "- 6"]) (simp_all add: round_half_even_def)

lemma float_1_minus_0_02:
  "fl_sub (Num 1) (Num (5764607523034235 / 2 ^ 58)) = Num (2206763817411543 / 2 ^ 51)"
  unfolding fl_sub_def pn_neg.simps fl_add.simps
  by (rule float_round_num [where e = "- 1"]) (simp_all add: round_half_even_def)

lemma float_1_plus_0_02:
  "fl_add (Num 1) (Num (5764607523034235 / 2 ^ 58)) = Num (2296835809958953 / 2 ^ 51)"
  unfolding fl_add.simps
  by (rule float_round_num [where e = 0]) (simp_all add: round_half_even_def)

lemma float_1_div_100: "div_100 (Num 1) = Num (5764607523034235 / 2 ^ 59)"
  unfolding div_100.simps
  by (rule float_round_num [where e = "- 7"]) (simp_all add: round_half_even_def)

lemma float_half_of_0_01:
  "fl_mul (Num 0.5) (Num (5764607523034235 / 2 ^ 59)) = Num (5764607523034235 / 2 ^ 60)"
  unfolding fl_mul.simps
  by (rule float_round_num [where e = "- 8"]) (simp_all add: round_half_even_def)

lemma float_0_01_halved:
  "fl_mul (Num (5764607523034235 / 2 ^ 59)) (Num 0.5) = Num (5764607523034235 / 2 ^ 60)"
  unfolding fl_mul.simps
  by (rule float_round_num [where e = "- 8"]) (simp_all add: round_half_even_def)

lemma float_quarter_of_0_01:
  "fl_mul (Num (5764607523034235 / 2 ^ 60)) (Num 0.5) = Num (5764607523034235 / 2 ^ 61)"
  unfolding fl_mul.simps
  by (rule float_round_num [where e = "- 9"]) (simp_all add: round_half_even_def)

lemma float_one_times_0_01:
  "fl_mul (Num 1) (Num (5764607523034235 / 2 ^ 59)) = Num (5764607523034235 / 2 ^ 59)"
  unfolding fl_mul.simps
  by (rule float_round_num [where e = "- 7"]) (simp_all add: round_half_even_def)

lemma float_0_01_times_one:
  "fl_mul (Num (5764607523034235 / 2 ^ 59)) (Num 1) = Num (5764607523034235 / 2 ^ 59)"
  unfolding fl_mul.simps
  by (rule float_round_num [where e = "- 7"]) (simp_all add: round_half_even_def)

lemma float_1_plus_0_0025:
  "fl_add (Num 1) (Num (5764607523034235 / 2 ^ 61)) = Num (2257429313219461 / 2 ^ 51)"
  unfolding fl_add.simps
  by (rule float_round_num [where e = 0]) (simp_all add: round_half_even_def)

lemma float_1_minus_0_005:
  "fl_sub (Num 1) (Num (5764607523034235 / 2 ^ 60)) = Num (8962163258467287 / 2 ^ 53)"
  unfolding fl_sub_def pn_neg.simps fl_add.simps
  by (rule float_round_num [where e = "- 1"]) (simp_all add: round_half_even_def)

lemma float_1_plus_0_005:
  "fl_add (Num 1) (Num (5764607523034235 / 2 ^ 60)) = Num (1131529406376837 / 2 ^ 50)"
  unfolding fl_add.simps
  by (rule float_round_num [where e = 0]) (simp_all add: round_half_even_def)

lemma float_1_minus_0_01:
  "fl_sub (Num 1) (Num (5764607523034235 / 2 ^ 59)) = Num (4458563631096791 / 2 ^ 52)"
  unfolding fl_sub_def pn_neg.simps fl_add.simps
  by (rule float_round_num [where e = "- 1"]) (simp_all add: round_half_even_def)

lemma float_1_plus_0_01:
  "fl_add (Num 1) (Num (5764607523034235 / 2 ^ 59)) = Num (4548635623644201 / 2 ^ 52)"
  unfolding fl_add.simps
  by (rule float_round_num [where e = 0]) (simp_all add: round_half_even_def)

text \<open>The still market: the offsets are below half an ulp of 1 and are absorbed.\<close>

lemma float_still_natr: "div_100 (Num (2 powi (- 47))) = Num (5764607523034235 / 2 ^ 106)"
  unfolding div_100.simps
  by (rule float_round_num [where e = "- 54"]) (simp_all add: round_half_even_def)

lemma float_still_half:
  "fl_mul (Num 0.5) (Num (5764607523034235 / 2 ^ 106)) = Num (5764607523034235 / 2 ^ 107)"
  unfolding fl_mul.simps
  by (rule float_round_num [where e = "- 55"]) (simp_all add: round_half_even_def)

lemma float_still_quarter:
  "fl_mul (Num (5764607523034235 / 2 ^ 107)) (Num 0.5) = Num (5764607523034235 / 2 ^ 108)"
  unfolding fl_mul.simps
  by (rule float_round_num [where e = "- 56"]) (simp_all add: round_half_even_def)

lemma float_still_absorbed:
  "fl_add (Num 1) (Num (5764607523034235 / 2 ^ 108)) = Num 1"
  unfolding fl_add.simps
  by (rule float_round_num [where e = 0]) (simp_all add: round_half_even_def)

text \<open>The \<^verbatim>\<open>Decimal\<close> products of the examples.\<close>

lemma decimal_100_times_one: "dec_mul (Num 100) (Num 1) = Inr (Num 100)"
  unfolding dec_mul.simps
  by (rule decimal_round_num [where e = 2]) (simp_all add: round_half_even_def)

lemma decimal_qs2_buy:
  "dec_mul (Num 100) (Num (2206763817411543 / 2 ^ 51)) = Inr (Num 97.99999999999999822364316060)"
  unfolding dec_mul.simps
  by (rule decimal_round_num [where e = 1]) (simp_all add: round_half_even_def)

lemma decimal_qs2_sell:
  "dec_mul (Num 100) (Num (2296835809958953 / 2 ^ 51)) = Inr (Num 102.0000000000000017763568394)"
  unfolding dec_mul.simps
  by (rule decimal_round_num [where e = 2]) (simp_all add: round_half_even_def)

lemma decimal_steady_adjusted:
  "dec_mul (Num 100) (Num (2257429313219461 / 2 ^ 51)) = Inr (Num 100.2499999999999946709294818)"
  unfolding dec_mul.simps
  by (rule decimal_round_num [where e = 2]) (simp_all add: round_half_even_def)

lemma decimal_steady_buy:
  "dec_mul (Num 100.2499999999999946709294818) (Num (8962163258467287 / 2 ^ 53))
     = Inr (Num 99.74874999999999425237540152)"
  unfolding dec_mul.simps
  by (rule decimal_round_num [where e = 1]) (simp_all add: round_half_even_def)

lemma decimal_steady_sell:
  "dec_mul (Num 100.2499999999999946709294818) (Num (1131529406376837 / 2 ^ 50))
     = Inr (Num 100.7512499999999839594977402)"
  unfolding dec_mul.simps
  by (rule decimal_round_num [where e = 2]) (simp_all add: round_half_even_def)

lemma decimal_example_adjusted:
  "dec_mul (Num 100) (Num (1131529406376837 / 2 ^ 50)) = Inr (Num 100.4999999999999893418589636)"
  unfolding dec_mul.simps
  by (rule decimal_round_num [where e = 2]) (simp_all add: round_half_even_def)

lemma decimal_example_buy:
  "dec_mul (Num 100.4999999999999893418589636) (Num (4458563631096791 / 2 ^ 52))
     = Inr (Num 99.49499999999998855582106217)"
  unfolding dec_mul.simps
  by (rule decimal_round_num [where e = 1]) (simp_all add: round_half_even_def)

lemma decimal_example_sell:
  "dec_mul (Num 100.4999999999999893418589636) (Num (4548635623644201 / 2 ^ 52))
     = Inr (Num 101.5049999999999901278968650)"
  unfolding dec_mul.simps
  by (rule decimal_round_num [where e = 2]) (simp_all add: round_half_even_def)

lemma decimal_neutral_buy:
  "dec_mul (Num 100) (Num (8962163258467287 / 2 ^ 53)) = Inr (Num 99.49999999999999955591079015)"
  unfolding dec_mul.simps
  by (rule decimal_round_num [where e = 1]) (simp_all add: round_half_even_def)

lemma decimal_overbought_adjusted:
  "dec_mul (Num 100) (Num (4458563631096791 / 2 ^ 52)) = Inr (Num 98.99999999999999911182158030)"
  unfolding dec_mul.simps
  by (rule decimal_round_num [where e = 1]) (simp_all add: round_half_even_def)

lemma decimal_overbought_buy:
  "dec_mul (Num 98.99999999999999911182158030) (Num (4458563631096791 / 2 ^ 52))
     = Inr (Num 98.00999999999999824140672899)"
  unfolding dec_mul.simps
  by (rule decimal_round_num [where e = 1]) (simp_all add: round_half_even_def)

lemma decimal_overbought_sell:
  "dec_mul (Num 98.99999999999999911182158030) (Num (4548635623644201 / 2 ^ 52))
     = Inr (Num 99.98999999999999998223643161)"
  unfolding dec_mul.simps
  by (rule decimal_round_num [where e = 1]) (simp_all add: round_half_even_def)

section \<open>The band filter and the budget adjuster\<close>

lemma filter_loop_priced:
  "priced proposal \<Longrightarrow>
     filter_loop (Num C) (Num F) proposal acc = Inr (acc @ filter (spec_band_keeps C F) proposal)"
proof (induction proposal arbitrary: acc)
  case Nil
  then show ?case by simp
next
  case (Cons order rest)
  from Cons.prems obtain p where p: "price order = Num p" and rest: "priced rest"
    by (cases "price order") (auto simp: priced_def determinate_def)
  show ?case
  proof (cases "order_side order")
    case BUY
    then show ?thesis
      using p Cons.IH [OF rest]
      by (simp add: spec_band_keeps_def decimal_gt_def decimal_lt_def is_nan_def)
  next
    case SELL
    then show ?thesis
      using p Cons.IH [OF rest]
      by (simp add: spec_band_keeps_def decimal_gt_def decimal_lt_def is_nan_def)
  qed
qed

lemma apply_filter_priced:
  assumes "priced proposal" "price_ceiling s = Num C" "price_floor s = Num F"
  shows "apply_price_ceiling_floor_filter s proposal = filter (spec_band_keeps C F) proposal"
  using assms by (simp add: apply_price_ceiling_floor_filter_def filter_loop_priced)

text \<open>
  Claim C4. On proposals whose prices are numbers, with ceiling \<open>C\<close> and floor \<open>F\<close>, the
  band filter keeps exactly the SELL proposals priced strictly above \<open>F\<close> and the BUY
  proposals priced strictly below \<open>C\<close>, unchanged and in their order; so a BUY at or above
  \<open>C\<close> and a SELL at or below \<open>F\<close> are dropped, and with \<open>C = 105\<close>, \<open>F = 95\<close> the
  input buy at 106, sell at 104 gives the sell at 104 alone.
\<close>

theorem band_filter_rule:
  "(priced proposal \<and> price_ceiling s = Num C \<and> price_floor s = Num F \<longrightarrow>
      apply_price_ceiling_floor_filter s proposal = filter (spec_band_keeps C F) proposal
      \<and> (\<forall>order p. order_side order = BUY \<and> price order = Num p \<and> C \<le> p
            \<longrightarrow> order \<notin> set (apply_price_ceiling_floor_filter s proposal))
      \<and> (\<forall>order p. order_side order = SELL \<and> price order = Num p \<and> p \<le> F
            \<longrightarrow> order \<notin> set (apply_price_ceiling_floor_filter s proposal)))
   \<and> apply_price_ceiling_floor_filter (qs2_init\<lparr>price_ceiling := Num 105, price_floor := Num 95\<rparr>)
        [order_at BUY 106, order_at SELL 104] = [order_at SELL 104]"
proof (intro conjI impI)
  assume h: "priced proposal \<and> price_ceiling s = Num C \<and> price_floor s = Num F"
  then have eq: "apply_price_ceiling_floor_filter s proposal = filter (spec_band_keeps C F) proposal"
    by (simp add: apply_filter_priced)
  show "apply_price_ceiling_floor_filter s proposal = filter (spec_band_keeps C F) proposal"
    by (rule eq)
  show "\<forall>order p. order_side order = BUY \<and> price order = Num p \<and> C \<le> p
            \<longrightarrow> order \<notin> set (apply_price_ceiling_floor_filter s proposal)"
    by (auto simp: eq spec_band_keeps_def)
  show "\<forall>order p. order_side order = SELL \<and> price order = Num p \<and> p \<le> F
            \<longrightarrow> order \<notin> set (apply_price_ceiling_floor_filter s proposal)"
    by (auto simp: eq spec_band_keeps_def)
next
  show "apply_price_ceiling_floor_filter (qs2_init\<lparr>price_ceiling := Num 105, price_floor := Num 95\<rparr>)
        [order_at BUY 106, order_at SELL 104] = [order_at SELL 104]"
    by (simp add: apply_price_ceiling_floor_filter_def qs2_init_def order_at_def
        decimal_gt_def decimal_lt_def is_nan_def)
qed

theorem band_filter_rule_witness:
  "priced [order_at BUY 106, order_at BUY 100, order_at SELL 104, order_at SELL 95]
   \<and> apply_price_ceiling_floor_filter (qs2_init\<lparr>price_ceiling := Num 105, price_floor := Num 95\<rparr>)
        [order_at BUY 106, order_at BUY 100, order_at SELL 104, order_at SELL 95]
      = [order_at BUY 100, order_at SELL 104]"
proof -
  let ?s = "qs2_init\<lparr>price_ceiling := Num 105, price_floor := Num 95\<rparr>"
  let ?ps = "[order_at BUY 106, order_at BUY 100, order_at SELL 104, order_at SELL 95]"
  have p: "priced ?ps"
    by (simp add: priced_def determinate_def order_at_def)
  have c: "price_ceiling ?s = Num 105" and f: "price_floor ?s = Num 95"
    by (simp_all add: qs2_init_def)
  from band_filter_rule [of ?ps ?s 105 95] p c f
  have "apply_price_ceiling_floor_filter ?s ?ps = filter (spec_band_keeps 105 95) ?ps"
    by blast
  then show ?thesis using p
    by (simp add: spec_band_keeps_def order_at_def)
qed

text \<open>
  Claim C8. In the all-or-none mode, which is the one \<^verbatim>\<open>adjust_proposal_to_budget\<close> asks
  for, the budget adjuster returns the empty list if the total requested notional exceeds
  the available balance, and its input unchanged otherwise.
\<close>

theorem budget_all_or_none:
  "total_notional proposal = Num requested \<and> adjust_candidates w = spec_adjust_candidates available
     \<longrightarrow> adjust_proposal_to_budget w proposal = (if requested > available then [] else proposal)"
  by (simp add: adjust_proposal_to_budget_def spec_adjust_candidates_def)

theorem budget_all_or_none_witness:
  "total_notional [order_at BUY 98, order_at SELL 102] = Num 8000
   \<and> adjust_proposal_to_budget calm_world [order_at BUY 98, order_at SELL 102] = []
   \<and> adjust_proposal_to_budget (calm_world\<lparr>adjust_candidates := spec_adjust_candidates 8000\<rparr>)
        [order_at BUY 98, order_at SELL 102] = [order_at BUY 98, order_at SELL 102]"
proof -
  let ?ps = "[order_at BUY 98, order_at SELL 102]"
  have t: "total_notional ?ps = Num 8000"
    by (simp add: notional_def order_at_def qs2_order_amount_def)
  have a: "adjust_candidates calm_world = spec_adjust_candidates 5000"
    by (simp add: calm_world_def)
  have b: "adjust_candidates (calm_world\<lparr>adjust_candidates := spec_adjust_candidates 8000\<rparr>)
             = spec_adjust_candidates 8000"
    by simp
  from budget_all_or_none [of ?ps 8000 calm_world 5000] t a
  have 1: "adjust_proposal_to_budget calm_world ?ps = []" by simp
  from budget_all_or_none [of ?ps 8000 "calm_world\<lparr>adjust_candidates := spec_adjust_candidates 8000\<rparr>" 8000] t b
  have 2: "adjust_proposal_to_budget (calm_world\<lparr>adjust_candidates := spec_adjust_candidates 8000\<rparr>) ?ps = ?ps"
    by simp
  from t 1 2 show ?thesis by simp
qed

section \<open>The fill notification leaves the state alone\<close>

text \<open>
  Claim C9. The fill notification hook of either class returns the strategy state it was
  given: the refresh time, the ceiling and the floor are what they were before the call.
\<close>

theorem fill_hook_frame:
  "fst (qs2_did_fill_order s event) = s
   \<and> create_timestamp (fst (qs2_did_fill_order s event)) = create_timestamp s
   \<and> price_ceiling (fst (qs2_did_fill_order s event)) = price_ceiling s
   \<and> price_floor (fst (qs2_did_fill_order s event)) = price_floor s
   \<and> fst (rsiamm_did_fill_order cfg r event) = r
   \<and> create_timestamp (fst (rsiamm_did_fill_order cfg r event)) = create_timestamp r"
  by (simp add: qs2_did_fill_order_def rsiamm_did_fill_order_def Let_def)

section \<open>The band before its first computation\<close>

lemma positively_priced_priced: "positively_priced proposal \<Longrightarrow> priced proposal"
  by (induction proposal) (auto simp: positively_priced_def priced_def determinate_def split: pynum.splits)

lemma filter_zero_band:
  "positively_priced proposal \<Longrightarrow>
     filter (spec_band_keeps 0 0) proposal = filter (\<lambda>order. order_side order = SELL) proposal"
  by (induction proposal) (auto simp: positively_priced_def spec_band_keeps_def split: pynum.splits)

lemma calculate_no_bands: "no_bands w \<Longrightarrow> calculate_price_ceiling_floor w s = s"
  by (auto simp: no_bands_def calculate_price_ceiling_floor_def split: option.splits)

lemma qs2_quotes_at_100:
  assumes "price_by_type w = Inr (Num 100)"
  shows "qs2_create_proposal w
     = [order_at BUY 97.99999999999999822364316060,
        order_at SELL 102.0000000000000017763568394]"
  using assms
  by (simp only: qs2_create_proposal_def qs2_bid_spread_def qs2_ask_spread_def float_0_02
      float_1_minus_0_02 float_1_plus_0_02 decimal_qs2_buy decimal_qs2_sell sum.case Let_def
      order_at_def)

text \<open>
  Claim C10. The ceiling and the floor start at 0, and a band computation that gives
  nothing leaves both as they were, also across the whole tick; so while both are 0 the
  band filter drops every BUY proposal with a positive price and keeps every SELL proposal
  with a positive price.
\<close>

theorem unset_band_drops_buys:
  "price_ceiling qs2_init = Num 0 \<and> price_floor qs2_init = Num 0
   \<and> (no_bands w \<longrightarrow> calculate_price_ceiling_floor w s = s)
   \<and> (no_bands w \<longrightarrow> price_ceiling (fst (qs2_on_tick w s)) = price_ceiling s
                       \<and> price_floor (fst (qs2_on_tick w s)) = price_floor s)
   \<and> (price_ceiling s = Num 0 \<and> price_floor s = Num 0 \<and> no_bands w \<and> positively_priced proposal
        \<longrightarrow> apply_price_ceiling_floor_filter (calculate_price_ceiling_floor w s) proposal
              = filter (\<lambda>order. order_side order = SELL) proposal)"
proof (intro conjI impI)
  show "price_ceiling qs2_init = Num 0" "price_floor qs2_init = Num 0"
    by (simp_all add: qs2_init_def)
next
  assume "no_bands w"
  then show "calculate_price_ceiling_floor w s = s" by (rule calculate_no_bands)
next
  assume nb: "no_bands w"
  then have c: "calculate_price_ceiling_floor w s = s" by (rule calculate_no_bands)
  show "price_ceiling (fst (qs2_on_tick w s)) = price_ceiling s"
    by (simp add: qs2_on_tick_def Let_def c)
  show "price_floor (fst (qs2_on_tick w s)) = price_floor s"
    by (simp add: qs2_on_tick_def Let_def c)
next
  assume h: "price_ceiling s = Num 0 \<and> price_floor s = Num 0 \<and> no_bands w \<and> positively_priced proposal"
  then have c: "calculate_price_ceiling_floor w s = s" by (simp add: calculate_no_bands)
  from h have "apply_price_ceiling_floor_filter s proposal = filter (spec_band_keeps 0 0) proposal"
    by (simp add: apply_filter_priced positively_priced_priced)
  with h c show "apply_price_ceiling_floor_filter (calculate_price_ceiling_floor w s) proposal
              = filter (\<lambda>order. order_side order = SELL) proposal"
    by (simp add: filter_zero_band)
qed

theorem unset_band_drops_buys_witness:
  "no_bands calm_world \<and> positively_priced (qs2_create_proposal calm_world)
   \<and> qs2_create_proposal calm_world = [order_at BUY 97.99999999999999822364316060,
         order_at SELL 102.0000000000000017763568394]
   \<and> apply_price_ceiling_floor_filter (calculate_price_ceiling_floor calm_world qs2_init)
        (qs2_create_proposal calm_world) = [order_at SELL 102.0000000000000017763568394]
   \<and> price_ceiling (fst (qs2_on_tick calm_world qs2_init)) = Num 0
   \<and> price_floor (fst (qs2_on_tick calm_world qs2_init)) = Num 0"
proof -
  have nb: "no_bands calm_world"
    by (simp add: no_bands_def calm_world_def)
  have "price_by_type calm_world = Inr (Num 100)" by (simp add: calm_world_def)
  then have cp: "qs2_create_proposal calm_world
      = [order_at BUY 97.99999999999999822364316060,
         order_at SELL 102.0000000000000017763568394]"
    by (rule qs2_quotes_at_100)
  have pp: "positively_priced (qs2_create_proposal calm_world)"
    by (simp add: cp positively_priced_def order_at_def)
  have z: "price_ceiling qs2_init = Num 0 \<and> price_floor qs2_init = Num 0"
    by (simp add: qs2_init_def)
  note t = unset_band_drops_buys [of calm_world qs2_init "qs2_create_proposal calm_world"]
  from t nb pp z
  have f: "apply_price_ceiling_floor_filter (calculate_price_ceiling_floor calm_world qs2_init)
        (qs2_create_proposal calm_world)
      = filter (\<lambda>order. order_side order = SELL) (qs2_create_proposal calm_world)"
    by blast
  from t nb z have k: "price_ceiling (fst (qs2_on_tick calm_world qs2_init)) = Num 0
     \<and> price_floor (fst (qs2_on_tick calm_world qs2_init)) = Num 0"
    by simp
  have "filter (\<lambda>order. order_side order = SELL) (qs2_create_proposal calm_world) = [order_at SELL 102.0000000000000017763568394]"
    by (simp add: cp order_at_def)
  with f nb pp cp k show ?thesis by simp
qed

section \<open>The steps of the quote generator and of the tick\<close>

lemma create_proposal_steps:
  assumes "get_natr w = Inr natr" "get_rsi_signal cfg w = Inr sg"
    "adjusted_mid_price cfg mid natr sg = Inr a"
    "dec_mul a (fl_sub (Num 1) (fl_mul (natr_spread_multiplier cfg) natr)) = Inr b"
    "dec_mul a (fl_add (Num 1) (fl_mul (natr_spread_multiplier cfg) natr)) = Inr c"
  shows "rsiamm_create_proposal cfg w mid = Inr [quote cfg BUY b, quote cfg SELL c]"
  using assms by (simp add: rsiamm_create_proposal_def quote_def)

lemma adjusted_up:
  "adjusted_mid_price cfg mid natr 1
     = dec_mul mid (fl_add (Num 1)
         (fl_mul (fl_mul (natr_spread_multiplier cfg) natr) (rsi_spread_change cfg)))"
  by (simp add: adjusted_mid_price_def)

lemma adjusted_down:
  "adjusted_mid_price cfg mid natr (- 1)
     = dec_mul mid (fl_sub (Num 1)
         (fl_mul (fl_mul (natr_spread_multiplier cfg) natr) (rsi_spread_change cfg)))"
  by (simp add: adjusted_mid_price_def)

lemma adjusted_neutral: "adjusted_mid_price cfg mid natr 0 = Inr mid"
  by (simp add: adjusted_mid_price_def)

lemma get_natr_last: "natr_series w = Some [x] \<Longrightarrow> get_natr w = Inr (div_100 x)"
  by (simp add: get_natr_def del: div_100.simps)

lemma get_rsi_signal_last:
  "processed_df w \<noteq> [] \<Longrightarrow> last (processed_df w) \<noteq> [] \<Longrightarrow>
     get_rsi_signal cfg w = Inr (rsi_signal_of cfg (last (last (processed_df w))))"
  by (simp add: get_rsi_signal_def get_processed_df_def)











section \<open>The quotes of RSIAMM\<close>

lemma example_quotes:
  assumes n: "natr_series w = Some [Num 1]" and p: "processed_df w = [[Num 100, Num 25]]"
  shows "get_natr w = Inr (Num (5764607523034235 / 2 ^ 59))"
    and "get_rsi_signal (default_config\<lparr>natr_spread_multiplier := Num 1\<rparr>) w = Inr 1"
    and "adjusted_mid_price (default_config\<lparr>natr_spread_multiplier := Num 1\<rparr>) (Num 100)
           (Num (5764607523034235 / 2 ^ 59)) 1 = Inr (Num 100.4999999999999893418589636)"
    and "rsiamm_create_proposal (default_config\<lparr>natr_spread_multiplier := Num 1\<rparr>) w (Num 100)
       = Inr [quote (default_config\<lparr>natr_spread_multiplier := Num 1\<rparr>) BUY
                (Num 99.49499999999998855582106217),
              quote (default_config\<lparr>natr_spread_multiplier := Num 1\<rparr>) SELL
                (Num 101.5049999999999901278968650)]"
proof -
  let ?cfg = "default_config\<lparr>natr_spread_multiplier := Num 1\<rparr>"
  have k: "natr_spread_multiplier ?cfg = Num 1"
    and c: "rsi_spread_change ?cfg = Num 0.5"
    by (simp_all add: default_config_def)
  show natr: "get_natr w = Inr (Num (5764607523034235 / 2 ^ 59))"
    by (simp only: get_natr_last [OF n] float_1_div_100)
  show sg: "get_rsi_signal ?cfg w = Inr 1"
    using p by (simp add: get_rsi_signal_last rsi_signal_of_def default_config_def
        float_gt_def float_lt_def)
  show a: "adjusted_mid_price ?cfg (Num 100) (Num (5764607523034235 / 2 ^ 59)) 1
      = Inr (Num 100.4999999999999893418589636)"
    by (simp only: adjusted_up k c float_one_times_0_01 float_0_01_halved
        float_1_plus_0_005 decimal_example_adjusted)
  have b: "dec_mul (Num 100.4999999999999893418589636)
      (fl_sub (Num 1) (fl_mul (natr_spread_multiplier ?cfg) (Num (5764607523034235 / 2 ^ 59))))
      = Inr (Num 99.49499999999998855582106217)"
    by (simp only: k float_one_times_0_01 float_1_minus_0_01 decimal_example_buy)
  have s: "dec_mul (Num 100.4999999999999893418589636)
      (fl_add (Num 1) (fl_mul (natr_spread_multiplier ?cfg) (Num (5764607523034235 / 2 ^ 59))))
      = Inr (Num 101.5049999999999901278968650)"
    by (simp only: k float_one_times_0_01 float_1_plus_0_01 decimal_example_sell)
  show "rsiamm_create_proposal ?cfg w (Num 100)
       = Inr [quote ?cfg BUY (Num 99.49499999999998855582106217),
              quote ?cfg SELL (Num 101.5049999999999901278968650)]"
    using natr sg a b s by (rule create_proposal_steps)
qed

text \<open>
  Claim C1, as written, fails at its own example: the factors \<open>1 + k * v * c\<close>,
  \<open>1 - k * v\<close> and \<open>1 + k * v\<close> are binary64 numbers, which \<^verbatim>\<open>Decimal(...)\<close> converts
  exactly, and the products are rounded to 28 digits. With mid price 100, momentum 25,
  volatility 1 percent, \<open>k = 1\<close> and \<open>c = 0.5\<close> the adjusted mid price, the buy price and
  the sell price are not 100.5, 99.495 and 101.505.
\<close>

theorem quote_prices_counterexample:
  "get_natr steady_world = Inr (Num (5764607523034235 / 2 ^ 59))
   \<and> get_rsi_signal (default_config\<lparr>natr_spread_multiplier := Num 1\<rparr>) steady_world = Inr 1
   \<and> adjusted_mid_price (default_config\<lparr>natr_spread_multiplier := Num 1\<rparr>) (Num 100)
        (Num (5764607523034235 / 2 ^ 59)) 1 = Inr (Num 100.4999999999999893418589636)
   \<and> rsiamm_create_proposal (default_config\<lparr>natr_spread_multiplier := Num 1\<rparr>) steady_world
        (Num 100)
      = Inr [quote (default_config\<lparr>natr_spread_multiplier := Num 1\<rparr>) BUY
               (Num 99.49499999999998855582106217),
             quote (default_config\<lparr>natr_spread_multiplier := Num 1\<rparr>) SELL
               (Num 101.5049999999999901278968650)]
   \<and> Num 100.4999999999999893418589636 \<noteq> Num 100.5
   \<and> Num 99.49499999999998855582106217 \<noteq> Num 99.495
   \<and> Num 101.5049999999999901278968650 \<noteq> Num 101.505"
proof -
  have n: "natr_series steady_world = Some [Num 1]"
    and p: "processed_df steady_world = [[Num 100, Num 25]]"
    by (simp_all add: steady_world_def)
  note e = example_quotes [OF n p]
  have "Num 100.4999999999999893418589636 \<noteq> Num 100.5"
    "Num 99.49499999999998855582106217 \<noteq> Num 99.495"
    "Num 101.5049999999999901278968650 \<noteq> Num 101.505"
    by simp_all
  with e show ?thesis by (intro conjI)
qed

text \<open>
  Claim C1, amended. The quote generator prices the two proposals by the formulas of the
  specification evaluated in the program's arithmetic: the factors
  \<open>1 + signal * k * v * c\<close>, \<open>1 - k * v\<close> and \<open>1 + k * v\<close> are computed in binary64, each
  operation rounded, the adjusted mid price is the \<^verbatim>\<open>Decimal\<close> product of the mid price
  and the first factor (the mid price itself for the signal 0), and the buy and the sell
  price are the \<^verbatim>\<open>Decimal\<close> products of the adjusted mid price and the other two factors,
  each rounded to 28 digits. With mid price 100, signal +1, volatility 1 percent, \<open>k = 1\<close>
  and \<open>c = 0.5\<close> the adjusted mid price is 100.4999999999999893418589636, the buy price
  99.49499999999998855582106217 and the sell price 101.5049999999999901278968650, each
  within \<open>2 * 10 ^ - 14\<close> of 100.5, 99.495 and 101.505.
\<close>

theorem quote_prices:
  "(get_natr w = Inr natr \<and> get_rsi_signal cfg w = Inr sg
      \<and> adjusted_mid_price cfg mid_price natr sg = Inr adjusted
      \<and> dec_mul adjusted (fl_sub (Num 1) (fl_mul (natr_spread_multiplier cfg) natr))
          = Inr buy_price
      \<and> dec_mul adjusted (fl_add (Num 1) (fl_mul (natr_spread_multiplier cfg) natr))
          = Inr sell_price
      \<longrightarrow> rsiamm_create_proposal cfg w mid_price
            = Inr [quote cfg BUY buy_price, quote cfg SELL sell_price])
   \<and> adjusted_mid_price cfg mid_price natr 1
      = dec_mul mid_price (fl_add (Num 1)
          (fl_mul (fl_mul (natr_spread_multiplier cfg) natr) (rsi_spread_change cfg)))
   \<and> adjusted_mid_price cfg mid_price natr (- 1)
      = dec_mul mid_price (fl_sub (Num 1)
          (fl_mul (fl_mul (natr_spread_multiplier cfg) natr) (rsi_spread_change cfg)))
   \<and> adjusted_mid_price cfg mid_price natr 0 = Inr mid_price
   \<and> adjusted_mid_price (default_config\<lparr>natr_spread_multiplier := Num 1\<rparr>) (Num 100)
        (Num (5764607523034235 / 2 ^ 59)) 1 = Inr (Num 100.4999999999999893418589636)
   \<and> rsiamm_create_proposal (default_config\<lparr>natr_spread_multiplier := Num 1\<rparr>) steady_world
        (Num 100)
      = Inr [quote (default_config\<lparr>natr_spread_multiplier := Num 1\<rparr>) BUY
               (Num 99.49499999999998855582106217),
             quote (default_config\<lparr>natr_spread_multiplier := Num 1\<rparr>) SELL
               (Num 101.5049999999999901278968650)]
   \<and> \<bar>100.4999999999999893418589636 - 100.5\<bar> < (2 / 10 ^ 14 :: real)
   \<and> \<bar>99.49499999999998855582106217 - 99.495\<bar> < (2 / 10 ^ 14 :: real)
   \<and> \<bar>101.5049999999999901278968650 - 101.505\<bar> < (2 / 10 ^ 14 :: real)"
proof (intro conjI impI)
  assume "get_natr w = Inr natr \<and> get_rsi_signal cfg w = Inr sg
      \<and> adjusted_mid_price cfg mid_price natr sg = Inr adjusted
      \<and> dec_mul adjusted (fl_sub (Num 1) (fl_mul (natr_spread_multiplier cfg) natr))
          = Inr buy_price
      \<and> dec_mul adjusted (fl_add (Num 1) (fl_mul (natr_spread_multiplier cfg) natr))
          = Inr sell_price"
  then show "rsiamm_create_proposal cfg w mid_price
            = Inr [quote cfg BUY buy_price, quote cfg SELL sell_price]"
    by (intro create_proposal_steps [where natr = natr and sg = sg and a = adjusted]) simp_all
next
  show "adjusted_mid_price cfg mid_price natr 1
      = dec_mul mid_price (fl_add (Num 1)
          (fl_mul (fl_mul (natr_spread_multiplier cfg) natr) (rsi_spread_change cfg)))"
    by (rule adjusted_up)
  show "adjusted_mid_price cfg mid_price natr (- 1)
      = dec_mul mid_price (fl_sub (Num 1)
          (fl_mul (fl_mul (natr_spread_multiplier cfg) natr) (rsi_spread_change cfg)))"
    by (rule adjusted_down)
  show "adjusted_mid_price cfg mid_price natr 0 = Inr mid_price"
    by (rule adjusted_neutral)
next
  have n: "natr_series steady_world = Some [Num 1]"
    and p: "processed_df steady_world = [[Num 100, Num 25]]"
    by (simp_all add: steady_world_def)
  show "adjusted_mid_price (default_config\<lparr>natr_spread_multiplier := Num 1\<rparr>) (Num 100)
        (Num (5764607523034235 / 2 ^ 59)) 1 = Inr (Num 100.4999999999999893418589636)"
    by (rule example_quotes(3) [OF n p])
  show "rsiamm_create_proposal (default_config\<lparr>natr_spread_multiplier := Num 1\<rparr>) steady_world
        (Num 100)
      = Inr [quote (default_config\<lparr>natr_spread_multiplier := Num 1\<rparr>) BUY
               (Num 99.49499999999998855582106217),
             quote (default_config\<lparr>natr_spread_multiplier := Num 1\<rparr>) SELL
               (Num 101.5049999999999901278968650)]"
    by (rule example_quotes(4) [OF n p])
next
  show "\<bar>100.4999999999999893418589636 - 100.5\<bar> < (2 / 10 ^ 14 :: real)" by simp
  show "\<bar>99.49499999999998855582106217 - 99.495\<bar> < (2 / 10 ^ 14 :: real)" by simp
  show "\<bar>101.5049999999999901278968650 - 101.505\<bar> < (2 / 10 ^ 14 :: real)" by simp
qed

theorem quote_prices_witness:
  "get_natr steady_world = Inr (Num (5764607523034235 / 2 ^ 59))
   \<and> get_rsi_signal default_config steady_world = Inr 1
   \<and> adjusted_mid_price default_config (Num 100) (Num (5764607523034235 / 2 ^ 59)) 1
      = Inr (Num 100.2499999999999946709294818)
   \<and> dec_mul (Num 100.2499999999999946709294818)
        (fl_sub (Num 1) (fl_mul (natr_spread_multiplier default_config)
           (Num (5764607523034235 / 2 ^ 59))))
      = Inr (Num 99.74874999999999425237540152)
   \<and> dec_mul (Num 100.2499999999999946709294818)
        (fl_add (Num 1) (fl_mul (natr_spread_multiplier default_config)
           (Num (5764607523034235 / 2 ^ 59))))
      = Inr (Num 100.7512499999999839594977402)
   \<and> rsiamm_create_proposal default_config steady_world (Num 100)
      = Inr [quote default_config BUY (Num 99.74874999999999425237540152),
             quote default_config SELL (Num 100.7512499999999839594977402)]"
proof -
  have k: "natr_spread_multiplier default_config = Num 0.5"
    and c: "rsi_spread_change default_config = Num 0.5"
    by (simp_all add: default_config_def)
  have n: "natr_series steady_world = Some [Num 1]"
    and p: "processed_df steady_world = [[Num 100, Num 25]]"
    by (simp_all add: steady_world_def)
  have natr: "get_natr steady_world = Inr (Num (5764607523034235 / 2 ^ 59))"
    by (simp only: get_natr_last [OF n] float_1_div_100)
  have sg: "get_rsi_signal default_config steady_world = Inr 1"
    using p by (simp add: get_rsi_signal_last rsi_signal_of_def default_config_def
        float_gt_def float_lt_def)
  have a: "adjusted_mid_price default_config (Num 100) (Num (5764607523034235 / 2 ^ 59)) 1
      = Inr (Num 100.2499999999999946709294818)"
    by (simp only: adjusted_up k c float_half_of_0_01 float_quarter_of_0_01
        float_1_plus_0_0025 decimal_steady_adjusted)
  have b: "dec_mul (Num 100.2499999999999946709294818)
      (fl_sub (Num 1) (fl_mul (natr_spread_multiplier default_config)
         (Num (5764607523034235 / 2 ^ 59)))) = Inr (Num 99.74874999999999425237540152)"
    by (simp only: k float_half_of_0_01 float_1_minus_0_005 decimal_steady_buy)
  have s: "dec_mul (Num 100.2499999999999946709294818)
      (fl_add (Num 1) (fl_mul (natr_spread_multiplier default_config)
         (Num (5764607523034235 / 2 ^ 59)))) = Inr (Num 100.7512499999999839594977402)"
    by (simp only: k float_half_of_0_01 float_1_plus_0_005 decimal_steady_sell)
  from natr sg a b s
  have "rsiamm_create_proposal default_config steady_world (Num 100)
      = Inr [quote default_config BUY (Num 99.74874999999999425237540152),
             quote default_config SELL (Num 100.7512499999999839594977402)]"
    by (intro quote_prices [where w = steady_world and cfg = default_config
          and natr = "Num (5764607523034235 / 2 ^ 59)" and sg = 1
          and adjusted = "Num 100.2499999999999946709294818" and mid_price = "Num 100",
          THEN conjunct1, THEN mp] conjI)
  with natr sg a b s show ?thesis by (intro conjI)
qed

section \<open>The refresh clock\<close>







section \<open>Failures of single venue calls\<close>









end
